theory Spec2Isabelle
  imports Main
begin

section \<open>Vanity address generator (src/utils/services/vanityAddress.tsx)\<close>

text \<open>
  The development follows the two classes of the source: \<open>VanityAddressGenerator\<close>
  (the coordinator, running on the page) and \<open>VanityWorker\<close> (the search loop inside
  \<open>WORKER_CODE\<close>, running in each web worker).

  Conventions of the embedding.
  \<^item> A JavaScript \<open>number\<close> that holds a count or a time stamp is an \<open>int\<close>; the counters
    a worker starts at \<open>0\<close> and only increments are \<open>nat\<close>. Fractions, \<open>NaN\<close> and the loss
    of precision above \<open>2^53\<close> are outside the model.
  \<^item> An optional field (\<open>prefix?: string\<close>) is an \<open>option\<close>, \<open>None\<close> being \<open>undefined\<close>.
    JavaScript's truthiness test of such a field is written out (\<open>str_truthy\<close>,
    \<open>num_truthy\<close>): \<open>undefined\<close>, the empty string and \<open>0\<close> are falsy.
  \<^item> A string is a list of ASCII characters: the addresses come from \<open>toBase58\<close>, and
    a pattern that passes \<open>validateConfig\<close> is base58 as well.
  \<^item> A \<open>throw\<close> is the \<open>Inl\<close> branch of a sum; \<open>console\<close> output is not modelled.
\<close>

subsection \<open>Configuration\<close>

record VanityConfig =
  prefix :: "string option"
  suffix :: "string option"
  caseInsensitive :: bool
  maxAttempts :: "int option"
  threads :: "int option"
  debug :: "bool option"

text \<open>The \<open>Error\<close> values the source constructs, one constructor for each message.\<close>

datatype error =
    NoPatternSpecified          \<comment> \<open>At least one pattern (prefix or suffix) must be specified\<close>
  | InvalidPrefix               \<comment> \<open>Prefix contains invalid characters for base58\<close>
  | InvalidSuffix               \<comment> \<open>Suffix contains invalid characters for base58\<close>
  | ThreadCountOutOfRange int   \<comment> \<open>Thread count must be between 1 and \<open>maxThreads * 2\<close>\<close>
  | MaximumAttemptsReached nat  \<comment> \<open>Worker \<open>workerId\<close>: Maximum attempts reached\<close>
  | WorkerErrorEvent nat        \<comment> \<open>the \<open>ErrorEvent\<close> a worker's \<open>onerror\<close> receives\<close>
  | BadSecretKey                \<comment> \<open>an \<open>Error\<close> thrown by \<open>Keypair.fromSecretKey\<close>\<close>

definition str_truthy :: "string option \<Rightarrow> bool" where
  "str_truthy s = (case s of None \<Rightarrow> False | Some x \<Rightarrow> x \<noteq> [])"

definition num_truthy :: "int option \<Rightarrow> bool" where
  "num_truthy n = (case n of None \<Rightarrow> False | Some x \<Rightarrow> x \<noteq> 0)"

text \<open>\<open>a || b\<close> on an optional number and a number.\<close>

definition num_or :: "int option \<Rightarrow> int \<Rightarrow> int" where
  "num_or a b = (case a of None \<Rightarrow> b | Some x \<Rightarrow> if x \<noteq> 0 then x else b)"

text \<open>
  The character class \<open>[1-9A-HJ-NP-Za-km-z]\<close>, range by range, and the test of
  \<open>/^[1-9A-HJ-NP-Za-km-z]+$/\<close>: at least one character, every character in the class.
\<close>

definition in_range :: "char \<Rightarrow> char \<Rightarrow> char \<Rightarrow> bool" where
  "in_range lo hi c = ((of_char lo :: nat) \<le> of_char c \<and> (of_char c :: nat) \<le> of_char hi)"

definition base58_char :: "char \<Rightarrow> bool" where
  "base58_char c =
     (in_range CHR ''1'' CHR ''9'' c \<or> in_range CHR ''A'' CHR ''H'' c \<or>
      in_range CHR ''J'' CHR ''N'' c \<or> in_range CHR ''P'' CHR ''Z'' c \<or>
      in_range CHR ''a'' CHR ''k'' c \<or> in_range CHR ''m'' CHR ''z'' c)"

definition base58Regex_test :: "string \<Rightarrow> bool" where
  "base58Regex_test s = (s \<noteq> [] \<and> list_all base58_char s)"

text \<open>\<open>navigator.hardwareConcurrency || 4\<close>; the argument is \<open>navigator.hardwareConcurrency\<close>.\<close>

definition maxThreads :: "int option \<Rightarrow> int" where
  "maxThreads hc = num_or hc 4"

text \<open>\<open>validateConfig\<close> returns nothing; \<open>Inl\<close> is the error it throws.\<close>

definition validateConfig :: "int option \<Rightarrow> VanityConfig \<Rightarrow> error + unit" where
  "validateConfig hc cfg =
     (if \<not> str_truthy (prefix cfg) \<and> \<not> str_truthy (suffix cfg) then Inl NoPatternSpecified
      else if str_truthy (prefix cfg) \<and> \<not> base58Regex_test (the (prefix cfg)) then Inl InvalidPrefix
      else if str_truthy (suffix cfg) \<and> \<not> base58Regex_test (the (suffix cfg)) then Inl InvalidSuffix
      else if num_truthy (threads cfg) \<and>
              (the (threads cfg) < 1 \<or> the (threads cfg) > maxThreads hc * 2)
           then Inl (ThreadCountOutOfRange (maxThreads hc * 2))
      else Inr ())"

subsection \<open>Pattern matcher (\<open>VanityWorker.matchesPattern\<close>)\<close>

definition lower_char :: "char \<Rightarrow> char" where
  "lower_char c = (if in_range CHR ''A'' CHR ''Z'' c then char_of (of_char c + (32::nat)) else c)"

definition toLowerCase :: "string \<Rightarrow> string" where
  "toLowerCase s = map lower_char s"

definition startsWith :: "string \<Rightarrow> string \<Rightarrow> bool" where
  "startsWith s p = (take (length p) s = p)"

definition endsWith :: "string \<Rightarrow> string \<Rightarrow> bool" where
  "endsWith s p = (length p \<le> length s \<and> drop (length s - length p) s = p)"

text \<open>
  \<open>targetPrefix\<close> and \<open>targetSuffix\<close> are only read behind \<open>!prefix ||\<close> and
  \<open>!suffix ||\<close>, that is when the pattern is a non-empty string.
\<close>

definition matchesPattern :: "VanityConfig \<Rightarrow> string \<Rightarrow> bool" where
  "matchesPattern cfg address =
     (let targetAddress = (if caseInsensitive cfg then toLowerCase address else address);
          targetPrefix = (if caseInsensitive cfg \<and> str_truthy (prefix cfg)
                          then map_option toLowerCase (prefix cfg) else prefix cfg);
          targetSuffix = (if caseInsensitive cfg \<and> str_truthy (suffix cfg)
                          then map_option toLowerCase (suffix cfg) else suffix cfg);
          prefixMatch = (\<not> str_truthy (prefix cfg) \<or> startsWith targetAddress (the targetPrefix));
          suffixMatch = (\<not> str_truthy (suffix cfg) \<or> endsWith targetAddress (the targetSuffix))
      in prefixMatch \<and> suffixMatch)"

subsection \<open>Candidates\<close>

text \<open>
  \<open>solanaWeb3.Keypair.generate()\<close> draws a fresh random keypair. The random source of a
  worker is a sequence \<open>gen :: nat \<Rightarrow> Keypair\<close>: \<open>gen j\<close> is the keypair returned by the
  worker's \<open>j\<close>-th call (counted from \<open>0\<close>). \<open>publicKey\<close> holds the text
  \<open>keypair.publicKey.toBase58()\<close> and \<open>secretKey\<close> the value \<open>keypair.secretKey\<close>.

  The code never looks into a secret key: it takes it from \<open>Keypair.generate()\<close>, posts
  it, and hands it to \<open>Keypair.fromSecretKey\<close>. A secret key is therefore a value of an
  arbitrary type \<open>'k\<close>, and \<open>Keypair.fromSecretKey\<close>, a function of \<open>@solana/web3.js\<close>, is a
  parameter \<open>fromSecretKey :: 'k \<Rightarrow> error + 'k Keypair\<close> of the page's handlers, \<open>Inl\<close>
  being the error it throws.
\<close>

record 'k Keypair =
  publicKey :: string
  secretKey :: 'k

subsection \<open>Messages from a worker to the coordinator (\<open>WorkerMessage\<close>)\<close>

text \<open>
  \<open>Progress a\<close> is \<open>{type: 'progress', data: {attempts: a}}\<close>, with \<open>attempts\<close> optional as
  in the interface; \<open>Success address privateKey attempts\<close> is
  \<open>{type: 'success', data: {address, privateKey, attempts}}\<close>.
\<close>

datatype 'k WorkerMessage =
    Progress "int option"
  | Success string 'k int

subsection \<open>The worker (\<open>VanityWorker\<close> in \<open>WORKER_CODE\<close>)\<close>

record VanityWorker =
  config :: VanityConfig
  workerId :: nat
  attempts :: nat
  reportInterval :: nat

definition new_VanityWorker :: "VanityConfig \<Rightarrow> nat \<Rightarrow> VanityWorker" where
  "new_VanityWorker cfg wid =
     \<lparr>config = cfg, workerId = wid, attempts = 0, reportInterval = 10000\<rparr>"

text \<open>
  The inner loop \<open>for (let i = 0; i < this.reportInterval; i++)\<close> of \<open>search\<close>. Its
  \<open>j\<close>-th iteration of the batch that starts after \<open>base\<close> candidates tests candidate
  \<open>gen (base + j)\<close>. The result is \<open>Some (i, keypair)\<close> when iteration \<open>i\<close> matched (the
  loop is left by \<open>return\<close>), and \<open>None\<close> when the loop ran to its end.
\<close>

function for_loop ::
  "VanityConfig \<Rightarrow> (nat \<Rightarrow> 'k Keypair) \<Rightarrow> nat \<Rightarrow> nat \<Rightarrow> nat \<Rightarrow> (nat \<times> 'k Keypair) option" where
  "for_loop cfg gen base n i =
     (if i < n then
        (let keypair = gen (base + i); address = publicKey keypair
         in if matchesPattern cfg address then Some (i, keypair)
            else for_loop cfg gen base n (i + 1))
      else None)"
  by pat_completeness auto
termination
  by (relation "measure (\<lambda>(cfg, gen, base, n, i). n - i)") auto

declare for_loop.simps [simp del]

text \<open>How a call of \<open>search\<close> ends: it returns, or it throws.\<close>

datatype search_exit = Returned | Thrown error

text \<open>\<open>this.config.maxAttempts && this.attempts >= this.config.maxAttempts\<close>\<close>

definition ceiling_reached :: "VanityWorker \<Rightarrow> bool" where
  "ceiling_reached w =
     (num_truthy (maxAttempts (config w)) \<and> int (attempts w) \<ge> the (maxAttempts (config w)))"

text \<open>
  \<open>search\<close>: the \<open>while (true)\<close> loop. \<open>out\<close> is the list of messages posted so far, in
  order. The result is the worker at the end, everything it posted, and how the call
  ended; a search that runs forever has the value \<open>None\<close>.
\<close>

partial_function (option) search ::
  "(nat \<Rightarrow> 'k Keypair) \<Rightarrow> VanityWorker \<Rightarrow> 'k WorkerMessage list \<Rightarrow>
     (VanityWorker \<times> 'k WorkerMessage list \<times> search_exit) option" where
  "search gen w out =
     (case for_loop (config w) gen (attempts w) (reportInterval w) 0 of
        Some (i, keypair) \<Rightarrow>
          Some (w, out @ [Success (publicKey keypair) (secretKey keypair)
                            (int (attempts w + i + 1))], Returned)
      | None \<Rightarrow>
          (if ceiling_reached (w\<lparr>attempts := attempts w + reportInterval w\<rparr>)
           then Some (w\<lparr>attempts := attempts w + reportInterval w\<rparr>,
                      out @ [Progress (Some (int (reportInterval w)))],
                      Thrown (MaximumAttemptsReached (workerId w)))
           else search gen (w\<lparr>attempts := attempts w + reportInterval w\<rparr>)
                  (out @ [Progress (Some (int (reportInterval w)))])))"

text \<open>
  The worker's \<open>self.onmessage\<close>: build a \<open>VanityWorker\<close> and run \<open>search\<close>; an error
  thrown by \<open>search\<close> is caught, logged and answered by \<open>self.close()\<close>. What the page can
  observe of a worker is the list of messages it posted; \<open>closed\<close> records \<open>self.close()\<close>,
  and \<open>uncaught\<close> is the error that leaves the handler (the page's \<open>worker.onerror\<close>
  fires for such an error only).
\<close>

record 'k worker_run =
  posted :: "'k WorkerMessage list"
  closed :: bool
  uncaught :: "error option"

definition worker_onmessage ::
  "(nat \<Rightarrow> 'k Keypair) \<Rightarrow> VanityConfig \<Rightarrow> nat \<Rightarrow> 'k worker_run option" where
  "worker_onmessage gen cfg wid =
     (case search gen (new_VanityWorker cfg wid) [] of
        None \<Rightarrow> None
      | Some (w, out, Returned) \<Rightarrow> Some \<lparr>posted = out, closed = False, uncaught = None\<rparr>
      | Some (w, out, Thrown e) \<Rightarrow> Some \<lparr>posted = out, closed = True, uncaught = None\<rparr>)"

subsection \<open>The coordinator (\<open>VanityAddressGenerator\<close>)\<close>

text \<open>
  The value \<open>generate()\<close> resolves with, and the state of the promise it returns.
  \<open>r_privateKey\<close> is the keypair that \<open>Keypair.fromSecretKey\<close> returned.
\<close>

record 'k SearchResult =
  r_publicKey :: string
  r_privateKey :: "'k Keypair"
  r_attempts :: int
  r_duration :: int

datatype 'k promise = Pending | Resolved "'k SearchResult" | Rejected error

text \<open>A settled promise ignores every later \<open>resolve\<close> and \<open>reject\<close>.\<close>

definition resolve :: "'k SearchResult \<Rightarrow> 'k promise \<Rightarrow> 'k promise" where
  "resolve r p = (case p of Pending \<Rightarrow> Resolved r | _ \<Rightarrow> p)"

definition reject :: "error \<Rightarrow> 'k promise \<Rightarrow> 'k promise" where
  "reject e p = (case p of Pending \<Rightarrow> Rejected e | _ \<Rightarrow> p)"

text \<open>
  One call of the registered progress callback. Its third argument \<open>rate\<close>, the double
  \<open>Math.floor(totalAttempts / (elapsed / 1000))\<close>, is floating-point arithmetic and is
  left out of the model.
\<close>

record progress_info =
  p_attempts :: int
  p_elapsed :: int

text \<open>
  The fields of the class, followed by the variables of one \<open>generate()\<close> call that its
  closures share: \<open>lastProgressUpdate\<close>, the promise, and whether \<open>workerUrl\<close> has been
  revoked. \<open>workers\<close> lists the identities of the \<open>Worker\<close> handles held, \<open>terminated\<close>
  those \<open>terminate()\<close> was called on, \<open>callback\<close> whether \<open>onProgress\<close> is set,
  \<open>notified\<close> the calls made to it, and \<open>pageErrors\<close> the errors thrown out of a handler
  on the page. The record follows one \<open>generate()\<close> call.
\<close>

record 'k Generator =
  g_config :: VanityConfig
  totalAttempts :: int
  startTime :: int
  workers :: "nat list"
  isRunning :: bool
  callback :: bool
  lastProgressUpdate :: int
  outcome :: "'k promise"
  urlRevoked :: bool
  terminated :: "nat list"
  notified :: "progress_info list"
  pageErrors :: "error list"

text \<open>
  The constructor: \<open>validateConfig\<close>, then
  \<open>threads: config.threads || navigator.hardwareConcurrency || 4\<close>.
\<close>

definition new_VanityAddressGenerator ::
  "int option \<Rightarrow> VanityConfig \<Rightarrow> error + 'k Generator" where
  "new_VanityAddressGenerator hc cfg =
     (case validateConfig hc cfg of
        Inl e \<Rightarrow> Inl e
      | Inr _ \<Rightarrow>
          Inr \<lparr>g_config = cfg\<lparr>threads := Some (num_or (threads cfg) (num_or hc 4))\<rparr>,
               totalAttempts = 0, startTime = 0, workers = [], isRunning = False,
               callback = False, lastProgressUpdate = 0, outcome = Pending,
               urlRevoked = False, terminated = [], notified = [], pageErrors = []\<rparr>)"

definition setProgressCallback :: "'k Generator \<Rightarrow> 'k Generator" where
  "setProgressCallback g = g\<lparr>callback := True\<rparr>"

definition stopWorkers :: "'k Generator \<Rightarrow> 'k Generator" where
  "stopWorkers g = g\<lparr>isRunning := False, terminated := terminated g @ workers g, workers := []\<rparr>"

text \<open>
  \<open>generate()\<close> up to the end of the executor: \<open>t0\<close> and \<open>t1\<close> are the two readings of
  \<open>Date.now()\<close>; the loop creates workers \<open>0, ..., threads - 1\<close>, posts the start message
  to each and pushes it on \<open>this.workers\<close>.
\<close>

definition generate :: "'k Generator \<Rightarrow> int \<Rightarrow> int \<Rightarrow> 'k Generator" where
  "generate g t0 t1 =
     g\<lparr>startTime := t0, isRunning := True, totalAttempts := 0, lastProgressUpdate := t1,
       outcome := Pending, urlRevoked := False,
       workers := workers g @ [0 ..< nat (the (threads (g_config g)))]\<rparr>"

text \<open>The closure \<open>onProgress\<close>.\<close>

definition onProgress :: "'k Generator \<Rightarrow> int \<Rightarrow> int \<Rightarrow> 'k Generator" where
  "onProgress g n now =
     (if \<not> isRunning g then g
      else
        (let g1 = g\<lparr>totalAttempts := totalAttempts g + n\<rparr>
         in if now - lastProgressUpdate g1 \<ge> 1000 then
              (let elapsed = now - startTime g1;
                   g2 = (if callback g1
                         then g1\<lparr>notified := notified g1 @
                                   [\<lparr>p_attempts = totalAttempts g1, p_elapsed = elapsed\<rparr>]\<rparr>
                         else g1)
               in g2\<lparr>lastProgressUpdate := now\<rparr>)
            else g1))"

text \<open>
  \<open>worker.onmessage\<close> on the page, with \<open>now\<close> the reading of \<open>Date.now()\<close>. In the success
  branch \<open>stopWorkers()\<close> and \<open>URL.revokeObjectURL\<close> have run when the argument of
  \<open>resolve\<close> is built; when \<open>Keypair.fromSecretKey\<close> throws there, \<open>resolve\<close> is not
  called and the error leaves the handler.
\<close>

definition onmessage ::
  "('k \<Rightarrow> error + 'k Keypair) \<Rightarrow> 'k Generator \<Rightarrow> 'k WorkerMessage \<Rightarrow> int \<Rightarrow> 'k Generator" where
  "onmessage fromSecretKey g m now =
     (if \<not> isRunning g then g
      else
        (case m of
           Progress a \<Rightarrow> onProgress g (num_or a 0) now
         | Success address privateKey n \<Rightarrow>
             (let g1 = (stopWorkers g)\<lparr>urlRevoked := True\<rparr>;
                  duration = now - startTime g1
              in case fromSecretKey privateKey of
                   Inl e \<Rightarrow> g1\<lparr>pageErrors := pageErrors g1 @ [e]\<rparr>
                 | Inr keypair \<Rightarrow>
                     g1\<lparr>outcome := resolve \<lparr>r_publicKey = address, r_privateKey = keypair,
                                              r_attempts = totalAttempts g1,
                                              r_duration = duration\<rparr> (outcome g1)\<rparr>)))"

text \<open>\<open>worker.onerror\<close> of worker \<open>i\<close>.\<close>

definition onerror :: "'k Generator \<Rightarrow> nat \<Rightarrow> 'k Generator" where
  "onerror g i =
     (let g1 = (stopWorkers g)\<lparr>urlRevoked := True\<rparr>
      in g1\<lparr>outcome := reject (WorkerErrorEvent i) (outcome g1)\<rparr>)"

text \<open>
  What reaches the page after \<open>generate()\<close>: a message of worker \<open>i\<close>, handled at time
  \<open>now\<close>, or an error event of worker \<open>i\<close>. The page handles them one at a time.
\<close>

datatype 'k event = Message nat "'k WorkerMessage" int | ErrorEvent nat

fun handle :: "('k \<Rightarrow> error + 'k Keypair) \<Rightarrow> 'k Generator \<Rightarrow> 'k event \<Rightarrow> 'k Generator" where
  "handle fromSecretKey g (Message i m now) = onmessage fromSecretKey g m now"
| "handle fromSecretKey g (ErrorEvent i) = onerror g i"

definition run :: "('k \<Rightarrow> error + 'k Keypair) \<Rightarrow> 'k Generator \<Rightarrow> 'k event list \<Rightarrow> 'k Generator" where
  "run fromSecretKey g evs = foldl (handle fromSecretKey) g evs"

subsection \<open>Reading an event list\<close>

text \<open>
  \<open>is_progress\<close> holds of the events that carry a progress message, \<open>is_message\<close> of the
  events that carry a message, and \<open>delta\<close> is the number a progress event adds to
  \<open>totalAttempts\<close> (\<open>e.data.data.attempts || 0\<close>); every other event adds nothing.
\<close>

fun is_progress :: "'k event \<Rightarrow> bool" where
  "is_progress (Message i (Progress a) now) = True"
| "is_progress (Message i (Success address privateKey n) now) = False"
| "is_progress (ErrorEvent i) = False"

fun is_message :: "'k event \<Rightarrow> bool" where
  "is_message (Message i m now) = True"
| "is_message (ErrorEvent i) = False"

fun delta :: "'k event \<Rightarrow> int" where
  "delta (Message i (Progress a) now) = num_or a 0"
| "delta (Message i (Success address privateKey n) now) = 0"
| "delta (ErrorEvent i) = 0"

text \<open>
  \<open>caused_by runs e\<close>: the event \<open>e\<close> is one that the finished worker runs \<open>runs\<close> give
  rise to, a message that worker \<open>i\<close> posted or the error event of an error that left
  its handler.
\<close>

fun caused_by :: "(nat \<Rightarrow> 'k worker_run option) \<Rightarrow> 'k event \<Rightarrow> bool" where
  "caused_by runs (Message i m now) =
     (case runs i of None \<Rightarrow> False | Some r \<Rightarrow> m \<in> set (posted r))"
| "caused_by runs (ErrorEvent i) =
     (case runs i of None \<Rightarrow> False | Some r \<Rightarrow> uncaught r \<noteq> None)"

subsection \<open>Inputs for the examples\<close>

text \<open>
  In the examples a secret key is the number of the \<open>generate()\<close> call that returned it.
  \<open>plain_gen\<close> is a source whose candidates all have the address \<open>plain_address\<close>;
  \<open>lucky_gen\<close> is the same source, except that candidate \<open>10002\<close> has the address
  \<open>lucky_address\<close>. \<open>example_fromSecretKey\<close> gives back the keypair of \<open>lucky_gen\<close> that
  has the key.
\<close>

definition plain_address :: string where
  "plain_address = ''723456789ABCDEFGHJKLMNPQRSTUVWXYZabcdefghij''"

definition lucky_address :: string where
  "lucky_address = ''ABcdefghijkmnopqrstuvwxyz123456789CDEFGHJMN''"

definition plain_gen :: "nat \<Rightarrow> nat Keypair" where
  "plain_gen j = \<lparr>publicKey = plain_address, secretKey = j\<rparr>"

definition lucky_gen :: "nat \<Rightarrow> nat Keypair" where
  "lucky_gen j = (if j = 10002 then \<lparr>publicKey = lucky_address, secretKey = j\<rparr> else plain_gen j)"

definition example_fromSecretKey :: "nat \<Rightarrow> error + nat Keypair" where
  "example_fromSecretKey k = Inr (lucky_gen k)"

text \<open>
  The configuration of the scenario \<open>prefix = "Ab", caseInsensitive = true, 4 workers\<close>,
  and the generator the constructor builds for it.
\<close>

definition Ab_config :: VanityConfig where
  "Ab_config = \<lparr>prefix = Some ''Ab'', suffix = None, caseInsensitive = True,
                 maxAttempts = None, threads = Some 4, debug = None\<rparr>"

definition Ab_generator :: "nat Generator" where
  "Ab_generator = \<lparr>g_config = Ab_config,
     totalAttempts = 0, startTime = 0, workers = [], isRunning = False,
     callback = False, lastProgressUpdate = 0, outcome = Pending,
     urlRevoked = False, terminated = [], notified = [], pageErrors = []\<rparr>"

text \<open>
  The configuration of the scenario \<open>maxAttempts = 1000, 2 workers\<close> with a prefix that
  \<open>plain_gen\<close> never produces, and the generator the constructor builds for it.
\<close>

definition zz_config :: VanityConfig where
  "zz_config = \<lparr>prefix = Some ''zz'', suffix = None, caseInsensitive = False,
                 maxAttempts = Some 1000, threads = Some 2, debug = None\<rparr>"

definition zz_generator :: "nat Generator" where
  "zz_generator = \<lparr>g_config = zz_config,
     totalAttempts = 0, startTime = 0, workers = [], isRunning = False,
     callback = False, lastProgressUpdate = 0, outcome = Pending,
     urlRevoked = False, terminated = [], notified = [], pageErrors = []\<rparr>"

section \<open>Properties\<close>

subsection \<open>The inner loop\<close>

lemma for_loop_None:
  "(\<And>j. i \<le> j \<Longrightarrow> j < n \<Longrightarrow> \<not> matchesPattern cfg (publicKey (gen (base + j)))) \<Longrightarrow>
   for_loop cfg gen base n i = None"
proof (induction cfg gen base n i rule: for_loop.induct)
  case (1 cfg gen base n i)
  show ?case
  proof (cases "i < n")
    case True
    have nm: "\<not> matchesPattern cfg (publicKey (gen (base + i)))"
      using "1.prems" [of i] True by simp
    have "for_loop cfg gen base n (i + 1) = None"
      using "1.IH" [OF True refl refl nm] "1.prems" by simp
    with True nm show ?thesis by (subst for_loop.simps) (simp add: Let_def)
  next
    case False
    then show ?thesis by (subst for_loop.simps) simp
  qed
qed

lemma for_loop_Some:
  "for_loop cfg gen base n i = Some (k, kp) \<Longrightarrow>
   i \<le> k \<and> k < n \<and> kp = gen (base + k) \<and> matchesPattern cfg (publicKey kp)"
proof (induction cfg gen base n i rule: for_loop.induct)
  case (1 cfg gen base n i)
  show ?case
  proof (cases "i < n")
    case True
    show ?thesis
    proof (cases "matchesPattern cfg (publicKey (gen (base + i)))")
      case m: True
      with True "1.prems" show ?thesis
        by (subst (asm) for_loop.simps) (auto simp add: Let_def)
    next
      case nm: False
      with True "1.prems" have "for_loop cfg gen base n (i + 1) = Some (k, kp)"
        by (subst (asm) for_loop.simps) (simp add: Let_def)
      from "1.IH" [OF True refl refl nm this] show ?thesis by auto
    qed
  next
    case False
    with "1.prems" show ?thesis by (subst (asm) for_loop.simps) simp
  qed
qed

lemma for_loop_first_match:
  assumes "matchesPattern cfg (publicKey (gen (base + j)))"
    and "\<And>j'. j' < j \<Longrightarrow> \<not> matchesPattern cfg (publicKey (gen (base + j')))"
    and "j < n"
  shows "i \<le> j \<Longrightarrow> for_loop cfg gen base n i = Some (j, gen (base + j))"
proof (induction "j - i" arbitrary: i)
  case 0
  then have "i = j" by simp
  with assms(1,3) show ?case by (subst for_loop.simps) (simp add: Let_def)
next
  case (Suc d)
  then have lt: "i < j" by simp
  then have "\<not> matchesPattern cfg (publicKey (gen (base + i)))" by (rule assms(2))
  moreover have "for_loop cfg gen base n (i + 1) = Some (j, gen (base + j))"
    using Suc.hyps(1) [of "i + 1"] Suc.hyps(2) lt by simp
  ultimately show ?case using lt assms(3) by (subst for_loop.simps) (simp add: Let_def)
qed

subsection \<open>The search loop\<close>

lemma ceil_div_bounds:
  fixes m :: int and B :: nat
  assumes "0 < m" "0 < B" "k = nat ((m + int B - 1) div int B)"
  shows "m \<le> int (B * k)" "int (B * k) < m + int B" "0 < k"
proof -
  let ?q = "(m + int B - 1) div int B"
  have Bp: "0 < int B" using assms by simp
  have q0: "0 < ?q" using assms Bp by (simp add: pos_imp_zdiv_pos_iff)
  have kq: "int k = ?q" using q0 assms by simp
  have eq: "int B * ?q + (m + int B - 1) mod int B = m + int B - 1" by simp
  have r: "0 \<le> (m + int B - 1) mod int B" "(m + int B - 1) mod int B < int B"
    using Bp by simp_all
  have "int (B * k) = int B * ?q" using kq by simp
  with eq r show "m \<le> int (B * k)" "int (B * k) < m + int B" by linarith+
  show "0 < k" using q0 kq by linarith
qed

text \<open>
  A worker that is \<open>d\<close> batches short of the first batch boundary at or above the ceiling
  \<open>m\<close>, and meets no match on the way, posts \<open>d\<close> progress messages and throws.
\<close>

lemma search_exhaust:
  fixes m :: int
  assumes cfg: "maxAttempts cfg = Some m" "0 < m"
    and B: "0 < B"
    and k: "k = nat ((m + int B - 1) div int B)"
    and nm: "\<And>j. j < B * k \<Longrightarrow> \<not> matchesPattern cfg (publicKey (gen j))"
  shows "config w = cfg \<Longrightarrow> reportInterval w = B \<Longrightarrow> d \<le> k \<Longrightarrow> d > 0 \<Longrightarrow>
     attempts w = B * (k - d) \<Longrightarrow>
     search gen w out =
       Some (w\<lparr>attempts := B * k\<rparr>, out @ replicate d (Progress (Some (int B))),
             Thrown (MaximumAttemptsReached (workerId w)))"
proof (induction d arbitrary: w out)
  case 0
  then show ?case by simp
next
  case (Suc d)
  have kd: "k - d = Suc (k - Suc d)" using Suc.prems by simp
  have step: "B * (k - Suc d) + B = B * (k - d)" by (simp add: kd)
  have none: "for_loop (config w) gen (attempts w) (reportInterval w) 0 = None"
  proof (rule for_loop_None)
    fix j assume "j < reportInterval w"
    then have "attempts w + j < B * (k - Suc d) + B" using Suc.prems by simp
    also have "\<dots> \<le> B * k" unfolding step by simp
    finally show "\<not> matchesPattern (config w) (publicKey (gen (attempts w + j)))"
      using nm Suc.prems by simp
  qed
  let ?w' = "w\<lparr>attempts := attempts w + reportInterval w\<rparr>"
  have att': "attempts ?w' = B * (k - d)"
    using Suc.prems step by simp
  note kB = ceil_div_bounds [OF cfg(2) B k]
  show ?case
  proof (cases "d = 0")
    case True
    then have "ceiling_reached ?w'" using att' Suc.prems kB cfg
      by (simp add: ceiling_reached_def num_truthy_def)
    then show ?thesis using none True att' Suc.prems
      by (subst search.simps) simp
  next
    case False
    have "Suc (k - d) \<le> k" using False Suc.prems by arith
    then have "B * Suc (k - d) \<le> B * k" by (rule mult_le_mono2)
    then have "B * (k - d) + B \<le> B * k" by simp
    then have "int (B * (k - d)) < m" using kB by linarith
    then have "\<not> ceiling_reached ?w'" using att' Suc.prems cfg
      by (simp add: ceiling_reached_def num_truthy_def)
    moreover have "search gen ?w' (out @ [Progress (Some (int B))]) =
       Some (?w'\<lparr>attempts := B * k\<rparr>,
             (out @ [Progress (Some (int B))]) @ replicate d (Progress (Some (int B))),
             Thrown (MaximumAttemptsReached (workerId ?w')))"
      using Suc.IH [of ?w' "out @ [Progress (Some (int B))]"] False Suc.prems att' by simp
    ultimately show ?thesis using none Suc.prems
      by (subst search.simps) (simp add: replicate_append_same)
  qed
qed

lemma search_exhaust_fresh:
  fixes m :: int
  assumes "maxAttempts cfg = Some m" "0 < m"
    and "k = nat ((m + 9999) div 10000)"
    and "\<And>j. j < 10000 * k \<Longrightarrow> \<not> matchesPattern cfg (publicKey (gen j))"
  shows "search gen (new_VanityWorker cfg wid) [] =
       Some ((new_VanityWorker cfg wid)\<lparr>attempts := 10000 * k\<rparr>,
             replicate k (Progress (Some 10000)), Thrown (MaximumAttemptsReached wid))"
proof -
  have k: "k = nat ((m + int 10000 - 1) div int 10000)" using assms(3) by simp
  have k0: "0 < k" using ceil_div_bounds(3) [OF assms(2) _ k] by simp
  show ?thesis
    using search_exhaust [OF assms(1,2) _ k assms(4),
        where w = "new_VanityWorker cfg wid" and d = k and out = "[]"] k0
    by (simp add: new_VanityWorker_def)
qed

text \<open>
  Total correctness of a successful search. Let candidate \<open>j\<close> be the first that
  matches, and let the ceiling not stop the worker at a batch boundary before \<open>j\<close>.
  A worker that is \<open>d\<close> batches short of the batch of \<open>j\<close> posts \<open>d\<close> progress messages
  and then the success message of candidate \<open>j\<close>.
\<close>

lemma search_finds:
  assumes m: "matchesPattern cfg (publicKey (gen j))"
    and first: "\<And>j'. j' < j \<Longrightarrow> \<not> matchesPattern cfg (publicKey (gen j'))"
    and B: "0 < B"
    and ceil: "\<And>c. maxAttempts cfg = Some c \<Longrightarrow> c = 0 \<or> j < B \<or> int (B * (j div B)) < c"
  shows "config w = cfg \<Longrightarrow> reportInterval w = B \<Longrightarrow> d \<le> j div B \<Longrightarrow>
     attempts w = B * (j div B - d) \<Longrightarrow>
     search gen w out =
       Some (w\<lparr>attempts := B * (j div B)\<rparr>,
             out @ replicate d (Progress (Some (int B))) @
               [Success (publicKey (gen j)) (secretKey (gen j)) (int (j + 1))],
             Returned)"
proof (induction d arbitrary: w out)
  case 0
  then have att: "attempts w = B * (j div B)" by simp
  have j: "B * (j div B) + j mod B = j" by simp
  have "for_loop cfg gen (B * (j div B)) B 0 = Some (j mod B, gen (B * (j div B) + j mod B))"
  proof (rule for_loop_first_match)
    show "matchesPattern cfg (publicKey (gen (B * (j div B) + j mod B)))" using m by simp
    show "\<not> matchesPattern cfg (publicKey (gen (B * (j div B) + j')))" if "j' < j mod B" for j'
    proof -
      from that have "B * (j div B) + j' < B * (j div B) + j mod B"
        by (rule add_strict_left_mono)
      also have "\<dots> = j" by (rule mult_div_mod_eq)
      finally show ?thesis by (rule first)
    qed
    show "j mod B < B" using B by simp
  qed simp
  then have "for_loop (config w) gen (attempts w) (reportInterval w) 0 = Some (j mod B, gen j)"
    using 0 att by simp
  moreover have "w\<lparr>attempts := B * (j div B)\<rparr> = w" using att by simp
  moreover have "attempts w + j mod B + 1 = j + 1" using att by simp
  ultimately show ?case by (subst search.simps) simp
next
  case (Suc d)
  have kd: "j div B - d = Suc (j div B - Suc d)" using Suc.prems by simp
  have step: "B * (j div B - Suc d) + B = B * (j div B - d)" by (simp add: kd)
  have below: "B * (j div B - d) \<le> B * (j div B)" by simp
  have none: "for_loop (config w) gen (attempts w) (reportInterval w) 0 = None"
  proof (rule for_loop_None)
    fix i assume "i < reportInterval w"
    then have "attempts w + i < B * (j div B - Suc d) + B" using Suc.prems by simp
    also have "\<dots> \<le> B * (j div B)" unfolding step by (rule below)
    also have "\<dots> \<le> j" by simp
    finally show "\<not> matchesPattern (config w) (publicKey (gen (attempts w + i)))"
      using first Suc.prems by simp
  qed
  let ?w' = "w\<lparr>attempts := attempts w + reportInterval w\<rparr>"
  have att': "attempts ?w' = B * (j div B - d)" using Suc.prems step by simp
  have jB: "B \<le> j"
  proof (rule ccontr)
    assume "\<not> B \<le> j"
    then have "j div B = 0" by simp
    with Suc.prems show False by simp
  qed
  have "\<not> ceiling_reached ?w'"
  proof (cases "maxAttempts cfg")
    case None
    then show ?thesis using Suc.prems by (simp add: ceiling_reached_def num_truthy_def)
  next
    case (Some c)
    from ceil [OF Some] jB have "c = 0 \<or> int (B * (j div B)) < c" by simp
    with below have "c = 0 \<or> int (B * (j div B - d)) < c" by linarith
    then show ?thesis using Some Suc.prems att'
      by (auto simp add: ceiling_reached_def num_truthy_def)
  qed
  moreover have "search gen ?w' (out @ [Progress (Some (int B))]) =
       Some (?w'\<lparr>attempts := B * (j div B)\<rparr>,
             (out @ [Progress (Some (int B))]) @ replicate d (Progress (Some (int B))) @
               [Success (publicKey (gen j)) (secretKey (gen j)) (int (j + 1))],
             Returned)"
    using Suc.IH [of ?w' "out @ [Progress (Some (int B))]"] Suc.prems att' by simp
  ultimately show ?case using none Suc.prems
    by (subst search.simps) (simp add: replicate_append_same)
qed

lemma search_finds_fresh:
  assumes "matchesPattern cfg (publicKey (gen j))"
    and "\<And>j'. j' < j \<Longrightarrow> \<not> matchesPattern cfg (publicKey (gen j'))"
    and "\<And>c. maxAttempts cfg = Some c \<Longrightarrow>
           c = 0 \<or> j < 10000 \<or> int (10000 * (j div 10000)) < c"
  shows "search gen (new_VanityWorker cfg wid) [] =
       Some ((new_VanityWorker cfg wid)\<lparr>attempts := 10000 * (j div 10000)\<rparr>,
             replicate (j div 10000) (Progress (Some 10000)) @
               [Success (publicKey (gen j)) (secretKey (gen j)) (int (j + 1))],
             Returned)"
proof -
  have B: "0 < (10000 :: nat)" by simp
  show ?thesis
    using search_finds [where B = 10000 and cfg = cfg and gen = gen and j = j
        and d = "j div 10000" and w = "new_VanityWorker cfg wid" and out = "[]",
        OF assms(1,2) B assms(3)]
    by (simp add: new_VanityWorker_def)
qed

text \<open>
  Induction over the unfoldings of \<open>search\<close>: what holds of every result it returns.
\<close>

lemmas search_induct = search.raw_induct [rotated 1, consumes 1, case_names step]

lemma search_shape:
  assumes "search gen w out = Some y"
  shows "\<exists>n. attempts (fst y) = attempts w + n * reportInterval w \<and>
     config (fst y) = config w \<and> workerId (fst y) = workerId w \<and>
     reportInterval (fst y) = reportInterval w \<and>
     (case snd (snd y) of
        Returned \<Rightarrow>
          (\<exists>i < reportInterval w.
             fst (snd y) = out @ replicate n (Progress (Some (int (reportInterval w)))) @
               [Success (publicKey (gen (attempts (fst y) + i))) (secretKey (gen (attempts (fst y) + i)))
                  (int (attempts (fst y) + i + 1))] \<and>
             matchesPattern (config w) (publicKey (gen (attempts (fst y) + i))))
      | Thrown e \<Rightarrow>
          0 < n \<and> ceiling_reached (fst y) \<and> e = MaximumAttemptsReached (workerId w) \<and>
          fst (snd y) = out @ replicate n (Progress (Some (int (reportInterval w)))))"
  using assms
proof (induction gen w out y rule: search_induct)
  case (step srch gen w out y)
  let ?B = "reportInterval w"
  let ?w' = "w\<lparr>attempts := attempts w + ?B\<rparr>"
  let ?P = "Progress (Some (int ?B))"
  show ?case
  proof (cases "for_loop (config w) gen (attempts w) ?B 0")
    case (Some ikp)
    obtain i kp where ikp: "ikp = (i, kp)" by (cases ikp)
    from for_loop_Some [OF Some [unfolded ikp]]
    have fl: "i < ?B" "kp = gen (attempts w + i)" "matchesPattern (config w) (publicKey kp)"
      by auto
    from step.hyps Some ikp
    have y: "y = (w, out @ [Success (publicKey kp) (secretKey kp) (int (attempts w + i + 1))], Returned)"
      by simp
    show ?thesis
      by (rule exI [of _ 0]) (use fl y in auto)
  next
    case None
    show ?thesis
    proof (cases "ceiling_reached ?w'")
      case True
      with step.hyps None
      have y: "y = (?w', out @ [?P], Thrown (MaximumAttemptsReached (workerId w)))"
        by simp
      show ?thesis
        by (rule exI [of _ 1]) (use True y in simp)
    next
      case False
      with step.hyps None have "srch gen ?w' (out @ [?P]) = Some y" by simp
      from step.IH [OF this] obtain n where n:
        "attempts (fst y) = attempts ?w' + n * reportInterval ?w'"
        "config (fst y) = config ?w'" "workerId (fst y) = workerId ?w'"
        "reportInterval (fst y) = reportInterval ?w'"
        "(case snd (snd y) of
        Returned \<Rightarrow>
          (\<exists>i < reportInterval ?w'.
             fst (snd y) = (out @ [?P]) @ replicate n (Progress (Some (int (reportInterval ?w')))) @
               [Success (publicKey (gen (attempts (fst y) + i))) (secretKey (gen (attempts (fst y) + i)))
                  (int (attempts (fst y) + i + 1))] \<and>
             matchesPattern (config ?w') (publicKey (gen (attempts (fst y) + i))))
      | Thrown e \<Rightarrow>
          0 < n \<and> ceiling_reached (fst y) \<and> e = MaximumAttemptsReached (workerId ?w') \<and>
          fst (snd y) = (out @ [?P]) @ replicate n (Progress (Some (int (reportInterval ?w')))))"
        by blast
      show ?thesis
        by (rule exI [of _ "Suc n"]) (use n in \<open>auto split: search_exit.splits simp: replicate_app_Cons_same\<close>)
    qed
  qed
qed


lemma search_fresh_returned:
  assumes "search gen (new_VanityWorker cfg wid) [] = Some (w', out, Returned)"
  shows "\<exists>c i. i < 10000 \<and> attempts w' = 10000 * c \<and>
     out = replicate c (Progress (Some 10000)) @
       [Success (publicKey (gen (10000 * c + i))) (secretKey (gen (10000 * c + i)))
          (int (10000 * c + i + 1))] \<and>
     matchesPattern cfg (publicKey (gen (10000 * c + i)))"
proof -
  from search_shape [OF assms]
  have "\<exists>n. attempts w' = n * 10000 \<and> (\<exists>i<10000.
    out = replicate n (Progress (Some 10000)) @
       [Success (publicKey (gen (attempts w' + i))) (secretKey (gen (attempts w' + i)))
          (int (attempts w' + i + 1))] \<and>
    matchesPattern cfg (publicKey (gen (attempts w' + i))))"
    by (simp add: new_VanityWorker_def) blast
  then obtain n i where
    "attempts w' = n * 10000" "i < 10000"
    "out = replicate n (Progress (Some 10000)) @
       [Success (publicKey (gen (attempts w' + i))) (secretKey (gen (attempts w' + i)))
          (int (attempts w' + i + 1))]"
    "matchesPattern cfg (publicKey (gen (attempts w' + i)))"
    by blast
  then show ?thesis
    by (intro exI [of _ n] exI [of _ i]) (simp add: mult.commute)
qed

lemma search_fresh_thrown:
  assumes "search gen (new_VanityWorker cfg wid) [] = Some (w', out, Thrown e)"
  shows "\<exists>c. 0 < c \<and> attempts w' = 10000 * c \<and> out = replicate c (Progress (Some 10000)) \<and>
     e = MaximumAttemptsReached wid"
proof -
  from search_shape [OF assms]
  have "\<exists>n. attempts w' = n * 10000 \<and> 0 < n \<and> out = replicate n (Progress (Some 10000)) \<and>
    e = MaximumAttemptsReached wid"
    by (simp add: new_VanityWorker_def) blast
  then obtain n where
    "attempts w' = n * 10000" "0 < n" "out = replicate n (Progress (Some 10000))"
    "e = MaximumAttemptsReached wid"
    by blast
  then show ?thesis
    by (intro exI [of _ n]) (simp add: mult.commute)
qed

lemma worker_exhausted:
  fixes m :: int
  assumes "maxAttempts cfg = Some m" "0 < m"
    and "\<And>j. j < 10000 * nat ((m + 9999) div 10000) \<Longrightarrow>
           \<not> matchesPattern cfg (publicKey (gen j))"
  shows "worker_onmessage gen cfg wid =
     Some \<lparr>posted = replicate (nat ((m + 9999) div 10000)) (Progress (Some 10000)),
           closed = True, uncaught = None\<rparr>"
  using search_exhaust_fresh [OF assms(1,2) refl assms(3), where wid = wid]
  by (simp add: worker_onmessage_def)

lemma posted_delta_nonneg:
  assumes "search gen (new_VanityWorker cfg wid) [] = Some (w', out, ex)" and "m \<in> set out"
  shows "0 \<le> delta (Message i m now)"
proof (cases ex)
  case Returned
  from search_fresh_returned [OF assms(1) [unfolded Returned]] assms(2)
  show ?thesis by (auto simp add: num_or_def)
next
  case (Thrown e)
  from search_fresh_thrown [OF assms(1) [unfolded Thrown]] assms(2)
  show ?thesis by (auto simp add: num_or_def)
qed

lemma success_in_posted:
  assumes "search gen (new_VanityWorker cfg wid) [] = Some (w', out, ex)"
    and "Success a k n \<in> set out"
  shows "(\<exists>j. a = publicKey (gen j) \<and> k = secretKey (gen j)) \<and> matchesPattern cfg a"
proof (cases ex)
  case Returned
  from search_fresh_returned [OF assms(1) [unfolded Returned]] assms(2)
  show ?thesis by auto
next
  case (Thrown e)
  from search_fresh_thrown [OF assms(1) [unfolded Thrown]] assms(2)
  show ?thesis by auto
qed

text \<open>A match below the ceiling makes the search return.\<close>

lemma search_returns_on_match:
  assumes "matchesPattern cfg (publicKey (gen j))"
    and "\<And>c i. maxAttempts cfg = Some c \<Longrightarrow> i \<le> j \<Longrightarrow>
           c = 0 \<or> i < 10000 \<or> int (10000 * (i div 10000)) < c"
  shows "\<exists>w' out. search gen (new_VanityWorker cfg wid) [] = Some (w', out, Returned)"
proof -
  define j0 where "j0 = (LEAST i. matchesPattern cfg (publicKey (gen i)))"
  have m: "matchesPattern cfg (publicKey (gen j0))"
    unfolding j0_def using assms(1) by (rule LeastI)
  have first: "\<not> matchesPattern cfg (publicKey (gen j'))" if "j' < j0" for j'
    using that unfolding j0_def by (rule not_less_Least)
  have le: "j0 \<le> j" unfolding j0_def using assms(1) by (rule Least_le)
  have "search gen (new_VanityWorker cfg wid) [] =
       Some ((new_VanityWorker cfg wid)\<lparr>attempts := 10000 * (j0 div 10000)\<rparr>,
             replicate (j0 div 10000) (Progress (Some 10000)) @
               [Success (publicKey (gen j0)) (secretKey (gen j0)) (int (j0 + 1))],
             Returned)"
    using m first assms(2) [OF _ le] by (intro search_finds_fresh) blast+
  then show ?thesis by blast
qed

text \<open>A negative ceiling is reached after the first batch.\<close>

lemma search_negative_ceiling:
  fixes m :: int
  assumes "maxAttempts cfg = Some m" "m < 0"
    and "\<And>j. j < 10000 \<Longrightarrow> \<not> matchesPattern cfg (publicKey (gen j))"
  shows "search gen (new_VanityWorker cfg wid) [] =
       Some ((new_VanityWorker cfg wid)\<lparr>attempts := 10000\<rparr>,
             [Progress (Some 10000)], Thrown (MaximumAttemptsReached wid))"
proof -
  have none: "for_loop cfg gen 0 10000 0 = None"
    by (rule for_loop_None) (simp add: assms(3))
  have "ceiling_reached ((new_VanityWorker cfg wid)\<lparr>attempts := 10000\<rparr>)"
    using assms(1,2) by (simp add: ceiling_reached_def num_truthy_def new_VanityWorker_def)
  then show ?thesis
    using none by (subst search.simps) (simp add: new_VanityWorker_def)
qed

subsection \<open>Validation and the constructor\<close>

lemma validateConfig_no_pattern:
  "\<not> str_truthy (prefix cfg) \<Longrightarrow> \<not> str_truthy (suffix cfg) \<Longrightarrow>
   validateConfig hc cfg = Inl NoPatternSpecified"
  by (simp add: validateConfig_def)

lemma new_generator_error:
  "validateConfig hc cfg = Inl e \<Longrightarrow> new_VanityAddressGenerator hc cfg = Inl e"
  by (simp add: new_VanityAddressGenerator_def)

lemma bad_char_fails_test: "c \<in> set s \<Longrightarrow> \<not> base58_char c \<Longrightarrow> \<not> base58Regex_test s"
  by (auto simp add: base58Regex_test_def list_all_iff)

lemma bad_prefix_rejected:
  assumes "prefix cfg = Some p" "c \<in> set p" "\<not> base58_char c"
  shows "validateConfig hc cfg = Inl InvalidPrefix"
proof -
  have "p \<noteq> []" using assms(2) by auto
  then have "str_truthy (prefix cfg)" using assms(1) by (simp add: str_truthy_def)
  moreover have "\<not> base58Regex_test (the (prefix cfg))"
    using bad_char_fails_test [OF assms(2,3)] assms(1) by simp
  ultimately show ?thesis by (simp add: validateConfig_def)
qed

lemma bad_suffix_rejected:
  assumes "suffix cfg = Some s" "c \<in> set s" "\<not> base58_char c"
  shows "validateConfig hc cfg = Inl InvalidSuffix \<or> validateConfig hc cfg = Inl InvalidPrefix"
proof -
  have "s \<noteq> []" using assms(2) by auto
  then have "str_truthy (suffix cfg)" using assms(1) by (simp add: str_truthy_def)
  moreover have "\<not> base58Regex_test (the (suffix cfg))"
    using bad_char_fails_test [OF assms(2,3)] assms(1) by simp
  ultimately show ?thesis by (simp add: validateConfig_def)
qed

lemma excluded_chars:
  "\<not> base58_char CHR ''0''" "\<not> base58_char CHR ''O''"
  "\<not> base58_char CHR ''I''" "\<not> base58_char CHR ''l''"
  by (simp_all add: base58_char_def in_range_def)

lemma new_generator_config:
  "new_VanityAddressGenerator hc cfg = Inr g \<Longrightarrow>
   g_config g = cfg\<lparr>threads := Some (num_or (threads cfg) (num_or hc 4))\<rparr>"
  by (auto simp add: new_VanityAddressGenerator_def split: sum.splits)

subsection \<open>The matcher\<close>

lemma matchesPattern_iff:
  "matchesPattern cfg address \<longleftrightarrow>
     (case prefix cfg of None \<Rightarrow> True
      | Some p \<Rightarrow> if caseInsensitive cfg then startsWith (toLowerCase address) (toLowerCase p)
                  else startsWith address p) \<and>
     (case suffix cfg of None \<Rightarrow> True
      | Some s \<Rightarrow> if caseInsensitive cfg then endsWith (toLowerCase address) (toLowerCase s)
                  else endsWith address s)"
  by (auto simp add: matchesPattern_def Let_def str_truthy_def startsWith_def endsWith_def
      toLowerCase_def split: option.splits)

lemma toLowerCase_take: "toLowerCase (take n s) = take n (toLowerCase s)"
  by (simp add: toLowerCase_def take_map)

lemma Ab_scenario:
  assumes "prefix cfg = Some ''Ab''" "caseInsensitive cfg" "matchesPattern cfg a"
  shows "toLowerCase (take 2 a) = ''ab''"
proof -
  have "startsWith (toLowerCase a) (toLowerCase ''Ab'')"
    using assms by (simp add: matchesPattern_iff)
  moreover have "toLowerCase ''Ab'' = ''ab''"
    by code_simp
  ultimately show ?thesis
    by (simp add: startsWith_def toLowerCase_take numeral_2_eq_2)
qed

lemma matchesPattern_threads [simp]:
  "matchesPattern (cfg\<lparr>threads := t\<rparr>) address = matchesPattern cfg address"
  by (simp add: matchesPattern_def)

subsection \<open>The coordinator\<close>

lemma run_Nil [simp]: "run f g [] = g"
  by (simp add: run_def)

lemma run_Cons [simp]: "run f g (e # evs) = run f (handle f g e) evs"
  by (simp add: run_def)

lemma run_append: "run f g (xs @ ys) = run f (run f g xs) ys"
  by (simp add: run_def)

lemma onProgress_fields:
  "outcome (onProgress g n now) = outcome g"
  "isRunning (onProgress g n now) = isRunning g"
  "workers (onProgress g n now) = workers g"
  "terminated (onProgress g n now) = terminated g"
  "startTime (onProgress g n now) = startTime g"
  "urlRevoked (onProgress g n now) = urlRevoked g"
  "g_config (onProgress g n now) = g_config g"
  "pageErrors (onProgress g n now) = pageErrors g"
  by (simp_all add: onProgress_def Let_def)

lemma onProgress_total:
  "totalAttempts (onProgress g n now) = (if isRunning g then totalAttempts g + n else totalAttempts g)"
  by (simp add: onProgress_def Let_def)

lemma handle_progress:
  assumes "is_progress e"
  shows "outcome (handle f g e) = outcome g" "isRunning (handle f g e) = isRunning g"
    "workers (handle f g e) = workers g" "terminated (handle f g e) = terminated g"
    "startTime (handle f g e) = startTime g" "urlRevoked (handle f g e) = urlRevoked g"
    "pageErrors (handle f g e) = pageErrors g"
    "totalAttempts (handle f g e) = (if isRunning g then totalAttempts g + delta e else totalAttempts g)"
  using assms
  by (cases e rule: is_progress.cases;
      simp add: onmessage_def onProgress_fields onProgress_total)+

lemma run_progress:
  assumes "\<forall>e\<in>set evs. is_progress e"
  shows "outcome (run f g evs) = outcome g \<and> isRunning (run f g evs) = isRunning g \<and>
    workers (run f g evs) = workers g \<and> terminated (run f g evs) = terminated g \<and>
    startTime (run f g evs) = startTime g \<and> urlRevoked (run f g evs) = urlRevoked g \<and>
    pageErrors (run f g evs) = pageErrors g \<and>
    totalAttempts (run f g evs) =
      (if isRunning g then totalAttempts g + sum_list (map delta evs) else totalAttempts g)"
  using assms
proof (induction evs arbitrary: g)
  case Nil
  then show ?case by simp
next
  case (Cons e evs)
  then have e: "is_progress e" and evs: "\<forall>e\<in>set evs. is_progress e" by simp_all
  show ?case
    using Cons.IH [OF evs, of "handle f g e"] handle_progress [OF e, of f g]
    by simp
qed

text \<open>Once the session is not running, a message changes nothing.\<close>

lemma handle_message_stopped:
  "\<not> isRunning g \<Longrightarrow> is_message e \<Longrightarrow> handle f g e = g"
  by (cases e) (simp_all add: onmessage_def)

lemma run_messages_stopped:
  "\<not> isRunning g \<Longrightarrow> \<forall>e\<in>set evs. is_message e \<Longrightarrow> run f g evs = g"
  by (induction evs) (simp_all add: handle_message_stopped)

text \<open>Once the promise is settled and the workers are stopped, no event changes anything.\<close>

lemma handle_settled:
  assumes "\<not> isRunning g" "workers g = []" "urlRevoked g" "outcome g \<noteq> Pending"
  shows "handle f g e = g"
proof (cases e)
  case (Message i m now)
  with assms show ?thesis by (simp add: onmessage_def)
next
  case (ErrorEvent i)
  with assms show ?thesis
    by (cases "outcome g") (simp_all add: onerror_def stopWorkers_def reject_def Let_def)
qed

lemma run_settled:
  assumes "\<not> isRunning g" "workers g = []" "urlRevoked g" "outcome g \<noteq> Pending"
  shows "run f g evs = g"
  by (induction evs) (simp_all add: handle_settled [OF assms])

lemma success_running:
  assumes "isRunning g" "outcome g = Pending" "f k = Inr kp"
  shows "onmessage f g (Success a k n) now =
     g\<lparr>isRunning := False, terminated := terminated g @ workers g, workers := [],
       urlRevoked := True,
       outcome := Resolved \<lparr>r_publicKey = a, r_privateKey = kp, r_attempts = totalAttempts g,
                             r_duration = now - startTime g\<rparr>\<rparr>"
  using assms by (simp add: onmessage_def stopWorkers_def resolve_def Let_def)

lemma success_stops:
  "\<not> isRunning (onmessage f g (Success a k n) now)"
  by (simp add: onmessage_def stopWorkers_def Let_def split: sum.splits)

lemma success_rejected_key:
  assumes "isRunning g" "f k = Inl e"
  shows "onmessage f g (Success a k n) now =
     g\<lparr>isRunning := False, terminated := terminated g @ workers g, workers := [],
       urlRevoked := True, pageErrors := pageErrors g @ [e]\<rparr>"
  using assms by (simp add: onmessage_def stopWorkers_def Let_def)

lemma generate_fields:
  "isRunning (generate g t0 t1)" "outcome (generate g t0 t1) = Pending"
  "totalAttempts (generate g t0 t1) = 0" "startTime (generate g t0 t1) = t0"
  "workers (generate g t0 t1) = workers g @ [0 ..< nat (the (threads (g_config g)))]"
  "terminated (generate g t0 t1) = terminated g"
  by (simp_all add: generate_def)

lemma total_mono_handle: "0 \<le> delta e \<Longrightarrow> totalAttempts g \<le> totalAttempts (handle f g e)"
  by (cases e rule: delta.cases)
    (simp_all add: onmessage_def onProgress_total onerror_def stopWorkers_def Let_def
      split: sum.splits)

lemma total_mono_run:
  "\<forall>e\<in>set evs. 0 \<le> delta e \<Longrightarrow> totalAttempts g \<le> totalAttempts (run f g evs)"
proof (induction evs arbitrary: g)
  case Nil
  then show ?case by simp
next
  case (Cons e evs)
  have "totalAttempts g \<le> totalAttempts (handle f g e)"
    using Cons.prems by (simp add: total_mono_handle)
  also have "\<dots> \<le> totalAttempts (run f (handle f g e) evs)"
    using Cons.IH [of "handle f g e"] Cons.prems by simp
  finally show ?case by simp
qed

lemma first_success:
  assumes "\<forall>e\<in>set pre. is_progress e" and "f k = Inr kp"
  shows "outcome (run f (generate g t0 t1) (pre @ [Message i (Success a k n) now])) =
      Resolved \<lparr>r_publicKey = a, r_privateKey = kp, r_attempts = sum_list (map delta pre),
                r_duration = now - t0\<rparr>"
    "\<not> isRunning (run f (generate g t0 t1) (pre @ [Message i (Success a k n) now]))"
    "workers (run f (generate g t0 t1) (pre @ [Message i (Success a k n) now])) = []"
    "urlRevoked (run f (generate g t0 t1) (pre @ [Message i (Success a k n) now]))"
    "terminated (run f (generate g t0 t1) (pre @ [Message i (Success a k n) now])) =
       terminated g @ workers g @ [0 ..< nat (the (threads (g_config g)))]"
proof -
  let ?s = "run f (generate g t0 t1) pre"
  let ?r = "run f (generate g t0 t1) (pre @ [Message i (Success a k n) now])"
  from run_progress [OF assms(1), of f "generate g t0 t1"]
  have s: "isRunning ?s" "outcome ?s = Pending" "totalAttempts ?s = sum_list (map delta pre)"
    "startTime ?s = t0" "terminated ?s = terminated g"
    "workers ?s = workers g @ [0 ..< nat (the (threads (g_config g)))]"
    by (simp_all add: generate_fields)
  have "?r = onmessage f ?s (Success a k n) now"
    by (simp add: run_append)
  also note success_running [where f = f and k = k, OF s(1,2) assms(2)]
  finally have eq: "?r =
     ?s\<lparr>isRunning := False, terminated := terminated ?s @ workers ?s, workers := [],
       urlRevoked := True,
       outcome := Resolved \<lparr>r_publicKey = a, r_privateKey = kp, r_attempts = totalAttempts ?s,
                             r_duration = now - startTime ?s\<rparr>\<rparr>" .
  show "outcome ?r =
      Resolved \<lparr>r_publicKey = a, r_privateKey = kp, r_attempts = sum_list (map delta pre),
                r_duration = now - t0\<rparr>"
    unfolding eq using s by simp
  show "\<not> isRunning ?r"
    unfolding eq by simp
  show "workers ?r = []"
    unfolding eq by simp
  show "urlRevoked ?r"
    unfolding eq by simp
  show "terminated ?r = terminated g @ workers g @ [0 ..< nat (the (threads (g_config g)))]"
    unfolding eq using s by simp
qed

lemma later_events_dropped:
  assumes "\<forall>e\<in>set pre. is_progress e" and "f k = Inr kp"
  shows "run f (generate g t0 t1) (pre @ Message i (Success a k n) now # post) =
         run f (generate g t0 t1) (pre @ [Message i (Success a k n) now])"
proof -
  let ?s = "run f (generate g t0 t1) (pre @ [Message i (Success a k n) now])"
  have "run f (generate g t0 t1) (pre @ Message i (Success a k n) now # post) = run f ?s post"
    using run_append [of f "generate g t0 t1" "pre @ [Message i (Success a k n) now]" post]
    by simp
  also have "\<dots> = ?s"
    using first_success [where f = f and k = k, OF assms, of g t0 t1 i a n now]
    by (intro run_settled) simp_all
  finally show ?thesis .
qed

lemma later_messages_dropped:
  assumes "\<forall>e\<in>set post. is_message e"
  shows "run f g (pre @ Message i (Success a k n) now # post) =
         run f g (pre @ [Message i (Success a k n) now])"
proof -
  let ?s = "run f g (pre @ [Message i (Success a k n) now])"
  have s: "?s = handle f (run f g pre) (Message i (Success a k n) now)"
    by (simp add: run_append)
  have stopped: "\<not> isRunning ?s"
  proof (cases "isRunning (run f g pre)")
    case True
    show ?thesis unfolding s by (simp add: success_stops)
  next
    case False
    then show ?thesis unfolding s by (simp add: onmessage_def)
  qed
  have "run f g (pre @ Message i (Success a k n) now # post) = run f ?s post"
    using run_append [of f g "pre @ [Message i (Success a k n) now]" post] by simp
  also have "\<dots> = ?s" using stopped assms by (rule run_messages_stopped)
  finally show ?thesis .
qed

lemma caused_by_progress_only:
  assumes "runs i = Some \<lparr>posted = replicate c (Progress a), closed = cl, uncaught = None\<rparr>"
  shows "caused_by runs (Message i m now) \<Longrightarrow> is_progress (Message i m now)"
    and "\<not> caused_by runs (ErrorEvent i)"
  using assms by auto

lemma own_progress_events:
  "length ts = c \<Longrightarrow>
   (\<forall>e\<in>set (map2 (Message wid) (replicate c (Progress (Some 10000))) ts). is_progress e) \<and>
   sum_list (map delta (map2 (Message wid) (replicate c (Progress (Some 10000))) ts)) =
     int (10000 * c)"
proof (induction c arbitrary: ts)
  case 0
  then show ?case by simp
next
  case (Suc c)
  then obtain t ts' where ts: "ts = t # ts'" "length ts' = c" by (cases ts) auto
  with Suc.IH [of ts'] show ?case by (simp add: num_or_def)
qed

text \<open>
  Workers that exhaust their attempts cause progress events only, so the page never
  settles the promise on their account.
\<close>

lemma exhausted_workers_leave_generate_pending:
  fixes m :: int
  assumes "new_VanityAddressGenerator hc cfg = Inr g"
    and "maxAttempts cfg = Some m" and "0 < m"
    and "\<forall>i j. \<not> matchesPattern cfg (publicKey (gens i j))"
    and "\<forall>e\<in>set evs. caused_by (\<lambda>i. worker_onmessage (gens i) (g_config g) i) e"
  shows "(\<forall>i. worker_onmessage (gens i) (g_config g) i =
            Some \<lparr>posted = replicate (nat ((m + 9999) div 10000)) (Progress (Some 10000)),
                  closed = True, uncaught = None\<rparr>) \<and>
         outcome (run f (generate g t0 t1) evs) = Pending \<and>
         isRunning (run f (generate g t0 t1) evs)"
proof -
  let ?runs = "\<lambda>i. worker_onmessage (gens i) (g_config g) i"
  note gc = new_generator_config [OF assms(1)]
  have runs: "?runs i = Some \<lparr>posted = replicate (nat ((m + 9999) div 10000)) (Progress (Some 10000)),
                  closed = True, uncaught = None\<rparr>" for i
    by (rule worker_exhausted [of _ m]) (use assms(2,3,4) gc in simp_all)
  have "is_progress e" if "e \<in> set evs" for e
  proof -
    from that assms(5) have c: "caused_by ?runs e" by blast
    show ?thesis
    proof (cases e)
      case (Message i msg now)
      with c caused_by_progress_only(1) [of ?runs, OF runs] show ?thesis by blast
    next
      case (ErrorEvent i)
      with c caused_by_progress_only(2) [of ?runs, OF runs] show ?thesis by blast
    qed
  qed
  then have "\<forall>e\<in>set evs. is_progress e" by blast
  from run_progress [OF this, of f "generate g t0 t1"] runs
  show ?thesis by (simp add: generate_fields)
qed

subsection \<open>The example inputs\<close>

lemma plain_gen_no_match:
  "prefix cfg = Some (CHR ''z'' # p) \<Longrightarrow> \<not> caseInsensitive cfg \<Longrightarrow>
   \<not> matchesPattern cfg (publicKey (plain_gen j))"
  by (simp add: matchesPattern_def plain_gen_def plain_address_def str_truthy_def
      startsWith_def Let_def)

lemma plain_gen_not_Ab:
  assumes "prefix cfg = Some ''Ab''" "caseInsensitive cfg"
  shows "\<not> matchesPattern cfg (publicKey (plain_gen j))"
proof -
  have "\<not> startsWith (toLowerCase plain_address) (toLowerCase ''Ab'')" by code_simp
  then show ?thesis using assms by (simp add: matchesPattern_iff plain_gen_def)
qed

lemma lucky_gen_first_match:
  assumes "prefix cfg = Some ''Ab''" "caseInsensitive cfg"
  shows "j' < 10002 \<Longrightarrow> \<not> matchesPattern cfg (publicKey (lucky_gen j'))"
  using plain_gen_not_Ab [OF assms] by (simp add: lucky_gen_def)

lemma zz_search:
  "search plain_gen (new_VanityWorker zz_config wid) [] =
     Some ((new_VanityWorker zz_config wid)\<lparr>attempts := 10000\<rparr>,
           [Progress (Some 10000)], Thrown (MaximumAttemptsReached wid))"
  using search_exhaust_fresh [of zz_config 1000 1 plain_gen wid]
    plain_gen_no_match [of zz_config "''z''"]
  by (simp add: zz_config_def)

lemma zz_constructed: "new_VanityAddressGenerator (Some 4) zz_config = Inr zz_generator"
  by (simp add: new_VanityAddressGenerator_def validateConfig_def num_truthy_def num_or_def
      str_truthy_def base58Regex_test_def base58_char_def in_range_def maxThreads_def
      zz_config_def zz_generator_def)

lemma Ab_constructed: "new_VanityAddressGenerator (Some 4) Ab_config = Inr Ab_generator"
  by (simp add: new_VanityAddressGenerator_def validateConfig_def num_truthy_def num_or_def
      str_truthy_def base58Regex_test_def base58_char_def in_range_def maxThreads_def
      Ab_config_def Ab_generator_def)

lemma lucky_match_Ab: "matchesPattern Ab_config lucky_address"
  by code_simp

lemma lucky_match_Ab_mn: "matchesPattern (Ab_config\<lparr>suffix := Some ''mn''\<rparr>) lucky_address"
  by code_simp

lemma lucky_search:
  assumes "prefix cfg = Some ''Ab''" "caseInsensitive cfg" "matchesPattern cfg lucky_address"
    and "maxAttempts cfg = None \<or> maxAttempts cfg = Some 15000"
  shows "search lucky_gen (new_VanityWorker cfg wid) [] =
     Some ((new_VanityWorker cfg wid)\<lparr>attempts := 10000\<rparr>,
           [Progress (Some 10000), Success lucky_address 10002 10003], Returned)"
proof -
  have m: "matchesPattern cfg (publicKey (lucky_gen 10002))"
    using assms(3) by (simp add: lucky_gen_def)
  have c: "c = 0 \<or> (10002 :: nat) < 10000 \<or> int (10000 * (10002 div 10000)) < c"
    if "maxAttempts cfg = Some c" for c
    using that assms(4) by auto
  have d: "(10002 :: nat) div 10000 = 1" by simp
  from search_finds_fresh [of cfg lucky_gen 10002 wid, OF m lucky_gen_first_match [OF assms(1,2)] c]
  show ?thesis unfolding d by (simp add: lucky_gen_def)
qed

lemma lucky_match_two_workers:
  "matchesPattern (Ab_config\<lparr>maxAttempts := Some 15000, threads := Some 2\<rparr>) lucky_address"
  by code_simp

section \<open>The claims\<close>

subsection \<open>C1: workers that exhaust their attempts\<close>

text \<open>
  C1. The code does not reject \<open>generate()\<close> when every worker has exhausted its
  attempts. In the scenario \<open>maxAttempts = 1000\<close> with two workers that find no match,
  each worker posts one progress message, throws the maximum-attempts error, catches
  it itself and closes; after the page has handled both messages the promise of
  \<open>generate()\<close> is pending and the session still counts as running, and no event is
  left that could settle it. The error never reaches \<open>worker.onerror\<close>, the handler
  that rejects the promise when it is given an error event.
\<close>

theorem C1_exhausted_search_never_settles:
  "new_VanityAddressGenerator (Some 4) zz_config = Inr zz_generator \<and>
   search plain_gen (new_VanityWorker zz_config 0) [] =
     Some ((new_VanityWorker zz_config 0)\<lparr>attempts := 10000\<rparr>,
           [Progress (Some 10000)], Thrown (MaximumAttemptsReached 0)) \<and>
   worker_onmessage plain_gen zz_config 0 =
     Some \<lparr>posted = [Progress (Some 10000)], closed = True, uncaught = None\<rparr> \<and>
   worker_onmessage plain_gen zz_config 1 =
     Some \<lparr>posted = [Progress (Some 10000)], closed = True, uncaught = None\<rparr> \<and>
   outcome (run example_fromSecretKey (generate zz_generator 100 100)
              [Message 0 (Progress (Some 10000)) 900, Message 1 (Progress (Some 10000)) 950]) =
     Pending \<and>
   isRunning (run example_fromSecretKey (generate zz_generator 100 100)
              [Message 0 (Progress (Some 10000)) 900, Message 1 (Progress (Some 10000)) 950]) \<and>
   outcome (run example_fromSecretKey (generate zz_generator 100 100) [ErrorEvent 0]) =
     Rejected (WorkerErrorEvent 0)"
  by (simp add: zz_constructed worker_onmessage_def zz_search generate_def onmessage_def
      onProgress_def onerror_def stopWorkers_def reject_def num_or_def Let_def zz_generator_def)

subsection \<open>C2: cancellation by the caller\<close>

text \<open>
  C2. The class has no \<open>stop\<close> member; the only code that cancels is the private
  \<open>stopWorkers\<close>. \<open>stopWorkers\<close> terminates the workers and clears \<open>isRunning\<close>, it can be
  repeated without effect, and it leaves the promise of \<open>generate()\<close> as it was: a
  pending promise stays pending, it is not rejected.
\<close>

theorem C2_stopWorkers_settles_nothing:
  "outcome (stopWorkers g) = outcome g \<and> \<not> isRunning (stopWorkers g) \<and>
   workers (stopWorkers g) = [] \<and> stopWorkers (stopWorkers g) = stopWorkers g"
  by (simp add: stopWorkers_def)

subsection \<open>C4: the thread count\<close>

text \<open>
  C4, amended. A thread count that is set, is not \<open>0\<close> and lies outside
  \<open>[1, 2 * maxThreads]\<close> (\<open>maxThreads\<close> being \<open>navigator.hardwareConcurrency || 4\<close>) makes
  the constructor throw, so that no generator exists and no worker is created; when the
  patterns are valid the error is the thread-count error. A thread count of \<open>0\<close> is
  treated as a thread count that is not set: the constructor behaves as it does on the
  configuration without \<open>threads\<close>.
\<close>

theorem C4_thread_count_checked_when_nonzero:
  "(threads cfg = Some n \<and> n \<noteq> 0 \<and> (n < 1 \<or> n > 2 * maxThreads hc) \<longrightarrow>
      (\<exists>e. new_VanityAddressGenerator hc cfg = Inl e) \<and>
      (validateConfig hc (cfg\<lparr>threads := None\<rparr>) = Inr () \<longrightarrow>
         new_VanityAddressGenerator hc cfg = Inl (ThreadCountOutOfRange (maxThreads hc * 2)))) \<and>
   (threads cfg = Some 0 \<longrightarrow>
      new_VanityAddressGenerator hc cfg = new_VanityAddressGenerator hc (cfg\<lparr>threads := None\<rparr>))"
  by (auto simp add: new_VanityAddressGenerator_def validateConfig_def num_truthy_def num_or_def
      split: if_splits)

theorem C4_thread_count_witness:
  "(new_VanityAddressGenerator (Some 4) (Ab_config\<lparr>threads := Some 9\<rparr>)
      :: error + nat Generator) = Inl (ThreadCountOutOfRange 8) \<and>
   (new_VanityAddressGenerator (Some 4) (Ab_config\<lparr>threads := Some (- 1)\<rparr>)
      :: error + nat Generator) = Inl (ThreadCountOutOfRange 8) \<and>
   (new_VanityAddressGenerator (Some 4) (Ab_config\<lparr>threads := Some 0\<rparr>)
      :: error + nat Generator) =
     new_VanityAddressGenerator (Some 4) (Ab_config\<lparr>threads := None\<rparr>)"
  using C4_thread_count_checked_when_nonzero
      [of "Ab_config\<lparr>threads := Some 9\<rparr>" 9 "Some 4",
        where ?'a = nat and ?'b = nat and ?'c = nat]
    C4_thread_count_checked_when_nonzero
      [of "Ab_config\<lparr>threads := Some (- 1)\<rparr>" "- 1" "Some 4",
        where ?'a = nat and ?'b = nat and ?'c = nat]
    C4_thread_count_checked_when_nonzero
      [of "Ab_config\<lparr>threads := Some 0\<rparr>" 0 "Some 4",
        where ?'a = nat and ?'b = nat and ?'c = nat]
  by (simp add: validateConfig_def num_truthy_def num_or_def maxThreads_def
      str_truthy_def base58Regex_test_def base58_char_def in_range_def Ab_config_def)

text \<open>
  C4 as stated fails at \<open>threads = 0\<close>: with \<open>navigator.hardwareConcurrency = 4\<close> the
  constructor accepts the configuration and sets \<open>threads\<close> to \<open>4\<close>.
\<close>

theorem C4_zero_threads_counterexample:
  "new_VanityAddressGenerator (Some 4) (Ab_config\<lparr>threads := Some 0\<rparr>) = Inr Ab_generator \<and>
   threads (g_config Ab_generator) = Some 4 \<and>
   workers (generate Ab_generator 0 0) = [0, 1, 2, 3]"
  by (simp add: new_VanityAddressGenerator_def validateConfig_def num_truthy_def num_or_def
      str_truthy_def base58Regex_test_def base58_char_def in_range_def
      Ab_config_def Ab_generator_def generate_def upt_rec)

subsection \<open>C5: the matcher and the reported address\<close>

text \<open>
  C5. \<open>matchesPattern\<close> holds of an address exactly when the address, lower-cased when
  \<open>caseInsensitive\<close> is set, is the prefix (lower-cased likewise) followed by some
  rest, and is some front followed by the suffix; a pattern that is absent makes its
  test true. Lower-casing turns the capital letters of the alphabet into the small
  ones and leaves its digits and small letters as they are.

  When candidate \<open>j\<close> is the first of a worker that matches, and the attempt ceiling does
  not stop the worker before, the worker posts, after one progress message for each
  full batch, the success message with the address and the key of candidate \<open>j\<close> as
  generated; when \<open>Keypair.fromSecretKey\<close> accepts that key, the page resolves
  \<open>generate()\<close> with this very address. For the prefix \<open>Ab\<close> with \<open>caseInsensitive\<close> the
  first two characters of that address, lower-cased, are \<open>ab\<close>. Conversely every
  success message a worker posts carries the address and the key of one of its
  candidates, and that address matches.
\<close>

theorem C5_matcher_and_reported_address:
  "(matchesPattern cfg address \<longleftrightarrow>
      (case prefix cfg of None \<Rightarrow> True
       | Some p \<Rightarrow> if caseInsensitive cfg
                   then \<exists>rest. toLowerCase address = toLowerCase p @ rest
                   else \<exists>rest. address = p @ rest) \<and>
      (case suffix cfg of None \<Rightarrow> True
       | Some s \<Rightarrow> if caseInsensitive cfg
                   then \<exists>front. toLowerCase address = front @ toLowerCase s
                   else \<exists>front. address = front @ s)) \<and>
   toLowerCase ''ABCDEFGHJKLMNPQRSTUVWXYZ'' = ''abcdefghjklmnpqrstuvwxyz'' \<and>
   toLowerCase ''123456789abcdefghijkmnopqrstuvwxyz'' = ''123456789abcdefghijkmnopqrstuvwxyz'' \<and>
   (matchesPattern cfg (publicKey (gen j)) \<and>
    (\<forall>j'<j. \<not> matchesPattern cfg (publicKey (gen j'))) \<and>
    (\<forall>c. maxAttempts cfg = Some c \<longrightarrow>
       c = 0 \<or> j < 10000 \<or> int (10000 * (j div 10000)) < c) \<longrightarrow>
      search gen (new_VanityWorker cfg wid) [] =
        Some ((new_VanityWorker cfg wid)\<lparr>attempts := 10000 * (j div 10000)\<rparr>,
              replicate (j div 10000) (Progress (Some 10000)) @
                [Success (publicKey (gen j)) (secretKey (gen j)) (int (j + 1))],
              Returned) \<and>
      ((\<forall>e\<in>set pre. is_progress e) \<and> fromSecretKey (secretKey (gen j)) = Inr kp \<longrightarrow>
         outcome (run fromSecretKey (generate g t0 t1)
                    (pre @ [Message wid (Success (publicKey (gen j)) (secretKey (gen j))
                                           (int (j + 1))) now])) =
           Resolved \<lparr>r_publicKey = publicKey (gen j), r_privateKey = kp,
                     r_attempts = sum_list (map delta pre), r_duration = now - t0\<rparr>) \<and>
      (prefix cfg = Some ''Ab'' \<and> caseInsensitive cfg \<longrightarrow>
         toLowerCase (take 2 (publicKey (gen j))) = ''ab'')) \<and>
   (search gen (new_VanityWorker cfg wid) [] = Some (w', out, ex) \<and> Success a k n \<in> set out \<longrightarrow>
      (\<exists>i. a = publicKey (gen i) \<and> k = secretKey (gen i)) \<and> matchesPattern cfg a)"
proof (intro conjI impI)
  have sw: "startsWith x p \<longleftrightarrow> (\<exists>rest. x = p @ rest)" for x p :: string
    by (auto simp add: startsWith_def) (metis append_take_drop_id)
  have ew: "endsWith x q \<longleftrightarrow> (\<exists>front. x = front @ q)" for x q :: string
  proof
    assume "endsWith x q"
    then have "x = take (length x - length q) x @ q"
      by (simp add: endsWith_def) (metis append_take_drop_id)
    then show "\<exists>front. x = front @ q" ..
  next
    assume "\<exists>front. x = front @ q"
    then show "endsWith x q" by (auto simp add: endsWith_def)
  qed
  show "matchesPattern cfg address \<longleftrightarrow>
      (case prefix cfg of None \<Rightarrow> True
       | Some p \<Rightarrow> if caseInsensitive cfg
                   then \<exists>rest. toLowerCase address = toLowerCase p @ rest
                   else \<exists>rest. address = p @ rest) \<and>
      (case suffix cfg of None \<Rightarrow> True
       | Some s \<Rightarrow> if caseInsensitive cfg
                   then \<exists>front. toLowerCase address = front @ toLowerCase s
                   else \<exists>front. address = front @ s)"
    unfolding matchesPattern_iff sw ew ..
  show "toLowerCase ''ABCDEFGHJKLMNPQRSTUVWXYZ'' = ''abcdefghjklmnpqrstuvwxyz''"
    by code_simp
  show "toLowerCase ''123456789abcdefghijkmnopqrstuvwxyz'' = ''123456789abcdefghijkmnopqrstuvwxyz''"
    by code_simp
next
  assume h: "matchesPattern cfg (publicKey (gen j)) \<and>
    (\<forall>j'<j. \<not> matchesPattern cfg (publicKey (gen j'))) \<and>
    (\<forall>c. maxAttempts cfg = Some c \<longrightarrow>
       c = 0 \<or> j < 10000 \<or> int (10000 * (j div 10000)) < c)"
  then show "search gen (new_VanityWorker cfg wid) [] =
        Some ((new_VanityWorker cfg wid)\<lparr>attempts := 10000 * (j div 10000)\<rparr>,
              replicate (j div 10000) (Progress (Some 10000)) @
                [Success (publicKey (gen j)) (secretKey (gen j)) (int (j + 1))],
              Returned)"
    by (intro search_finds_fresh) blast+
  from h show "toLowerCase (take 2 (publicKey (gen j))) = ''ab''"
    if "prefix cfg = Some ''Ab'' \<and> caseInsensitive cfg"
    using that Ab_scenario [of cfg "publicKey (gen j)"] by blast
  show "outcome (run fromSecretKey (generate g t0 t1)
                    (pre @ [Message wid (Success (publicKey (gen j)) (secretKey (gen j))
                                           (int (j + 1))) now])) =
           Resolved \<lparr>r_publicKey = publicKey (gen j), r_privateKey = kp,
                     r_attempts = sum_list (map delta pre), r_duration = now - t0\<rparr>"
    if "(\<forall>e\<in>set pre. is_progress e) \<and> fromSecretKey (secretKey (gen j)) = Inr kp"
    using that first_success(1) [where f = fromSecretKey and k = "secretKey (gen j)" and kp = kp
        and pre = pre]
    by blast
next
  assume "search gen (new_VanityWorker cfg wid) [] = Some (w', out, ex) \<and> Success a k n \<in> set out"
  then have r: "(\<exists>i. a = publicKey (gen i) \<and> k = secretKey (gen i)) \<and> matchesPattern cfg a"
    using success_in_posted [of gen cfg wid w' out ex a k n] by blast
  from r show "\<exists>i. a = publicKey (gen i) \<and> k = secretKey (gen i)" ..
  from r show "matchesPattern cfg a" ..
qed


theorem C5_matcher_witness:
  "matchesPattern (Ab_config\<lparr>suffix := Some ''mn''\<rparr>) lucky_address \<and>
   search lucky_gen (new_VanityWorker (Ab_config\<lparr>suffix := Some ''mn''\<rparr>) 0) [] =
     Some ((new_VanityWorker (Ab_config\<lparr>suffix := Some ''mn''\<rparr>) 0)\<lparr>attempts := 10000\<rparr>,
           [Progress (Some 10000), Success lucky_address 10002 10003], Returned) \<and>
   outcome (run example_fromSecretKey (generate Ab_generator 0 0)
              [Message 0 (Progress (Some 10000)) 400,
               Message 0 (Success lucky_address 10002 10003) 900]) =
     Resolved \<lparr>r_publicKey = lucky_address,
               r_privateKey = \<lparr>publicKey = lucky_address, secretKey = 10002\<rparr>,
               r_attempts = 10000, r_duration = 900\<rparr> \<and>
   take 2 lucky_address = ''AB'' \<and> toLowerCase (take 2 lucky_address) = ''ab''"
proof -
  let ?cfg = "Ab_config\<lparr>suffix := Some ''mn''\<rparr>"
  have cfg: "prefix ?cfg = Some ''Ab''" "caseInsensitive ?cfg" "maxAttempts ?cfg = None"
    by (simp_all add: Ab_config_def)
  have m: "matchesPattern ?cfg (publicKey (lucky_gen 10002))"
    using lucky_match_Ab_mn by (simp add: lucky_gen_def)
  have first: "\<forall>j'<10002. \<not> matchesPattern ?cfg (publicKey (lucky_gen j'))"
    using lucky_gen_first_match [OF cfg(1,2)] by blast
  have ceil: "\<forall>c. maxAttempts ?cfg = Some c \<longrightarrow>
      c = 0 \<or> (10002 :: nat) < 10000 \<or> int (10000 * (10002 div 10000)) < c"
    using cfg(3) by simp
  have pre: "\<forall>e\<in>set [Message 0 (Progress (Some 10000)) 400 :: nat event]. is_progress e"
    by simp
  have key: "example_fromSecretKey (secretKey (lucky_gen 10002)) = Inr (lucky_gen 10002)"
    by (simp add: example_fromSecretKey_def lucky_gen_def)
  have d: "(10002 :: nat) div 10000 = 1" by simp
  from C5_matcher_and_reported_address
    [where cfg = ?cfg and address = lucky_address and gen = lucky_gen and j = 10002
      and wid = 0 and pre = "[Message 0 (Progress (Some 10000)) 400]"
      and fromSecretKey = example_fromSecretKey and kp = "lucky_gen 10002"
      and g = Ab_generator and ?t0.0 = 0 and ?t1.0 = 0 and now = 900]
    m first ceil pre key cfg
  have "search lucky_gen (new_VanityWorker ?cfg 0) [] =
        Some ((new_VanityWorker ?cfg 0)\<lparr>attempts := 10000 * (10002 div 10000)\<rparr>,
              replicate (10002 div 10000) (Progress (Some 10000)) @
                [Success (publicKey (lucky_gen 10002)) (secretKey (lucky_gen 10002))
                   (int (10002 + 1))],
              Returned) \<and>
    outcome (run example_fromSecretKey (generate Ab_generator 0 0)
              ([Message 0 (Progress (Some 10000)) 400] @
                 [Message 0 (Success (publicKey (lucky_gen 10002)) (secretKey (lucky_gen 10002))
                                           (int (10002 + 1))) 900])) =
      Resolved \<lparr>r_publicKey = publicKey (lucky_gen 10002), r_privateKey = lucky_gen 10002,
                r_attempts = sum_list (map delta [Message 0 (Progress (Some 10000)) 400 :: nat event]),
                r_duration = 900 - 0\<rparr> \<and>
    toLowerCase (take 2 (publicKey (lucky_gen 10002))) = ''ab''"
    by blast
  then show ?thesis
    unfolding d using lucky_match_Ab_mn
    by (simp add: lucky_gen_def num_or_def) (simp add: lucky_address_def)
qed

subsection \<open>C6: patterns outside the alphabet\<close>

text \<open>
  C6. When the prefix or the suffix contains a character outside the base58 character
  class, or when neither of them is set (absent or empty), the constructor throws one
  of its three pattern errors, whatever the rest of the configuration: no generator
  exists, so no worker is created and no search begins. The characters \<open>0\<close>, \<open>O\<close>, \<open>I\<close>
  and \<open>l\<close> are outside the class.
\<close>

theorem C6_invalid_pattern_rejected:
  "((\<exists>p c. prefix cfg = Some p \<and> c \<in> set p \<and> \<not> base58_char c) \<or>
    (\<exists>s c. suffix cfg = Some s \<and> c \<in> set s \<and> \<not> base58_char c) \<or>
    (prefix cfg \<in> {None, Some []} \<and> suffix cfg \<in> {None, Some []}) \<longrightarrow>
      new_VanityAddressGenerator hc cfg = Inl NoPatternSpecified \<or>
      new_VanityAddressGenerator hc cfg = Inl InvalidPrefix \<or>
      new_VanityAddressGenerator hc cfg = Inl InvalidSuffix) \<and>
   \<not> base58_char CHR ''0'' \<and> \<not> base58_char CHR ''O'' \<and>
   \<not> base58_char CHR ''I'' \<and> \<not> base58_char CHR ''l''"
proof (intro conjI impI)
  assume "(\<exists>p c. prefix cfg = Some p \<and> c \<in> set p \<and> \<not> base58_char c) \<or>
    (\<exists>s c. suffix cfg = Some s \<and> c \<in> set s \<and> \<not> base58_char c) \<or>
    (prefix cfg \<in> {None, Some []} \<and> suffix cfg \<in> {None, Some []})"
  then show "new_VanityAddressGenerator hc cfg = Inl NoPatternSpecified \<or>
      new_VanityAddressGenerator hc cfg = Inl InvalidPrefix \<or>
      new_VanityAddressGenerator hc cfg = Inl InvalidSuffix"
  proof (elim disjE exE conjE)
    fix p c assume "prefix cfg = Some p" "c \<in> set p" "\<not> base58_char c"
    from bad_prefix_rejected [OF this] show ?thesis
      by (simp add: new_generator_error)
  next
    fix s c assume "suffix cfg = Some s" "c \<in> set s" "\<not> base58_char c"
    from bad_suffix_rejected [OF this, of hc] show ?thesis
      by (auto simp add: new_generator_error)
  next
    assume "prefix cfg \<in> {None, Some []}" "suffix cfg \<in> {None, Some []}"
    then have "validateConfig hc cfg = Inl NoPatternSpecified"
      by (intro validateConfig_no_pattern) (auto simp add: str_truthy_def)
    then show ?thesis by (simp add: new_generator_error)
  qed
qed (simp_all add: excluded_chars)

theorem C6_invalid_pattern_witness:
  "(new_VanityAddressGenerator (Some 4) (Ab_config\<lparr>prefix := Some ''0abc''\<rparr>)
      :: error + nat Generator) = Inl InvalidPrefix \<and>
   (new_VanityAddressGenerator (Some 4) (Ab_config\<lparr>prefix := None\<rparr>)
      :: error + nat Generator) = Inl NoPatternSpecified"
proof -
  have h: "\<exists>p c. prefix (Ab_config\<lparr>prefix := Some ''0abc''\<rparr>) = Some p \<and> c \<in> set p \<and>
      \<not> base58_char c"
    by (intro exI [of _ "''0abc''"] exI [of _ "CHR ''0''"]) (simp add: excluded_chars)
  have h': "prefix (Ab_config\<lparr>prefix := None\<rparr>) \<in> {None, Some []} \<and>
      suffix (Ab_config\<lparr>prefix := None\<rparr>) \<in> {None, Some []}"
    by (simp add: Ab_config_def)
  from C6_invalid_pattern_rejected
      [of "Ab_config\<lparr>prefix := Some ''0abc''\<rparr>" "Some 4",
        where ?'a = nat and ?'b = nat and ?'c = nat] h
    C6_invalid_pattern_rejected
      [of "Ab_config\<lparr>prefix := None\<rparr>" "Some 4",
        where ?'a = nat and ?'b = nat and ?'c = nat] h'
  show ?thesis
    by (simp add: new_VanityAddressGenerator_def validateConfig_def str_truthy_def
        base58Regex_test_def base58_char_def in_range_def Ab_config_def)
qed

subsection \<open>C7: the aggregate of attempts\<close>

text \<open>
  C7. While the session is running, a progress message adds its \<open>attempts\<close> to
  \<open>totalAttempts\<close> whatever the time at which it is handled: the one-second throttle
  decides about the notification only. Over any further events whose deltas are not
  negative, \<open>totalAttempts\<close> does not decrease, whatever happened before; and after any
  list of progress messages handled since \<open>generate()\<close>, \<open>totalAttempts\<close> is the sum of
  their deltas. No message that a worker posts has a negative delta.
\<close>

theorem C7_total_attempts_monotone:
  "(isRunning s \<longrightarrow>
      totalAttempts (onmessage fromSecretKey s (Progress a) now) = totalAttempts s + num_or a 0) \<and>
   ((\<forall>e\<in>set evs. 0 \<le> delta e) \<longrightarrow>
      totalAttempts (run fromSecretKey s pre) \<le> totalAttempts (run fromSecretKey s (pre @ evs))) \<and>
   ((\<forall>e\<in>set evs. is_progress e) \<longrightarrow>
      totalAttempts (run fromSecretKey (generate g t0 t1) evs) = sum_list (map delta evs)) \<and>
   (search gen (new_VanityWorker cfg wid) [] = Some (w', out, ex) \<and> m \<in> set out \<longrightarrow>
      0 \<le> delta (Message wid m now))"
proof (intro conjI impI)
  assume "isRunning s"
  then show "totalAttempts (onmessage fromSecretKey s (Progress a) now) =
      totalAttempts s + num_or a 0"
    by (simp add: onmessage_def onProgress_total)
next
  assume "\<forall>e\<in>set evs. 0 \<le> delta e"
  then show "totalAttempts (run fromSecretKey s pre) \<le>
      totalAttempts (run fromSecretKey s (pre @ evs))"
    by (simp add: run_append total_mono_run)
next
  assume "\<forall>e\<in>set evs. is_progress e"
  from run_progress [OF this, of fromSecretKey "generate g t0 t1"]
  show "totalAttempts (run fromSecretKey (generate g t0 t1) evs) = sum_list (map delta evs)"
    by (simp add: generate_fields)
next
  assume "search gen (new_VanityWorker cfg wid) [] = Some (w', out, ex) \<and> m \<in> set out"
  then show "0 \<le> delta (Message wid m now)"
    using posted_delta_nonneg by blast
qed

theorem C7_total_attempts_witness:
  "totalAttempts (onmessage example_fromSecretKey (generate Ab_generator 100 100)
      (Progress (Some 10000)) 500) = 10000 \<and>
   totalAttempts (run example_fromSecretKey (generate Ab_generator 100 100)
      [Message 1 (Progress (Some 10000)) 500]) \<le>
   totalAttempts (run example_fromSecretKey (generate Ab_generator 100 100)
      [Message 1 (Progress (Some 10000)) 500, Message 0 (Progress (Some 10000)) 1200,
       Message 2 (Progress None) 1250]) \<and>
   totalAttempts (run example_fromSecretKey (generate Ab_generator 100 100)
      [Message 0 (Progress (Some 10000)) 1200, Message 2 (Progress None) 1250]) = 10000 \<and>
   0 \<le> delta (Message 0 (Progress (Some 10000)) 900 :: nat event)"
  using C7_total_attempts_monotone
    [where s = "generate Ab_generator 100 100" and a = "Some 10000" and now = 500
      and fromSecretKey = example_fromSecretKey
      and evs = "[Message 0 (Progress (Some 10000)) 1200, Message 2 (Progress None) 1250]"
      and pre = "[Message 1 (Progress (Some 10000)) 500]" and g = Ab_generator
      and ?t0.0 = 100 and ?t1.0 = 100 and gen = lucky_gen and cfg = Ab_config and wid = 0
      and w' = "(new_VanityWorker Ab_config 0)\<lparr>attempts := 10000\<rparr>"
      and out = "[Progress (Some 10000), Success lucky_address 10002 10003]" and ex = Returned
      and m = "Progress (Some 10000)"]
    lucky_search [of Ab_config 0] lucky_match_Ab
  by (simp add: generate_fields num_or_def Ab_config_def)

subsection \<open>C8: the first success\<close>

text \<open>
  C8. Let the page have handled only progress messages since \<open>generate()\<close>, and let a
  success message arrive whose key \<open>Keypair.fromSecretKey\<close> accepts (as it accepts the
  keys of the keypairs that \<open>Keypair.generate()\<close> returns). Then the promise is resolved
  with the address of that message and the keypair of its key, the session stops
  running, every worker held is terminated and the list of workers is empty; and
  whatever arrives afterwards (progress, another success, an error event) leaves the
  whole state as it is: the promise stays resolved with the first result. Whatever the
  key and whatever came before, the messages that arrive after a success message
  change nothing.
\<close>

theorem C8_first_success_only:
  "((\<forall>e\<in>set pre. is_progress e) \<and> fromSecretKey k = Inr kp \<longrightarrow>
      outcome (run fromSecretKey (generate g t0 t1) (pre @ [Message i (Success a k n) now])) =
        Resolved \<lparr>r_publicKey = a, r_privateKey = kp, r_attempts = sum_list (map delta pre),
                  r_duration = now - t0\<rparr> \<and>
      \<not> isRunning (run fromSecretKey (generate g t0 t1) (pre @ [Message i (Success a k n) now])) \<and>
      workers (run fromSecretKey (generate g t0 t1) (pre @ [Message i (Success a k n) now])) = [] \<and>
      terminated (run fromSecretKey (generate g t0 t1) (pre @ [Message i (Success a k n) now])) =
        terminated g @ workers g @ [0 ..< nat (the (threads (g_config g)))] \<and>
      (\<forall>post. run fromSecretKey (generate g t0 t1) (pre @ Message i (Success a k n) now # post) =
               run fromSecretKey (generate g t0 t1) (pre @ [Message i (Success a k n) now]))) \<and>
   ((\<forall>e\<in>set msgs. is_message e) \<longrightarrow>
      run fromSecretKey s (evs @ Message i (Success a k n) now # msgs) =
      run fromSecretKey s (evs @ [Message i (Success a k n) now]))"
proof (intro conjI impI)
  assume h: "(\<forall>e\<in>set pre. is_progress e) \<and> fromSecretKey k = Inr kp"
  then have p: "\<forall>e\<in>set pre. is_progress e" and key: "fromSecretKey k = Inr kp" by blast+
  note fs = first_success [where f = fromSecretKey and k = k and kp = kp and pre = pre
      and g = g and ?t0.0 = t0 and ?t1.0 = t1 and i = i and a = a and n = n and now = now,
      OF p key]
  show "outcome (run fromSecretKey (generate g t0 t1) (pre @ [Message i (Success a k n) now])) =
        Resolved \<lparr>r_publicKey = a, r_privateKey = kp, r_attempts = sum_list (map delta pre),
                  r_duration = now - t0\<rparr>"
    by (rule fs(1))
  show "\<not> isRunning (run fromSecretKey (generate g t0 t1) (pre @ [Message i (Success a k n) now]))"
    by (rule fs(2))
  show "workers (run fromSecretKey (generate g t0 t1) (pre @ [Message i (Success a k n) now])) = []"
    by (rule fs(3))
  show "terminated (run fromSecretKey (generate g t0 t1) (pre @ [Message i (Success a k n) now])) =
        terminated g @ workers g @ [0 ..< nat (the (threads (g_config g)))]"
    by (rule fs(5))
  show "\<forall>post. run fromSecretKey (generate g t0 t1) (pre @ Message i (Success a k n) now # post) =
               run fromSecretKey (generate g t0 t1) (pre @ [Message i (Success a k n) now])"
    using later_events_dropped [where f = fromSecretKey and k = k and kp = kp, OF p key]
    by blast
next
  assume "\<forall>e\<in>set msgs. is_message e"
  then show "run fromSecretKey s (evs @ Message i (Success a k n) now # msgs) =
      run fromSecretKey s (evs @ [Message i (Success a k n) now])"
    by (rule later_messages_dropped)
qed

theorem C8_first_success_witness:
  "outcome (run example_fromSecretKey (generate Ab_generator 0 0)
              [Message 0 (Progress (Some 10000)) 400,
               Message 1 (Success lucky_address 10002 10003) 900]) =
     Resolved \<lparr>r_publicKey = lucky_address,
               r_privateKey = \<lparr>publicKey = lucky_address, secretKey = 10002\<rparr>,
               r_attempts = 10000, r_duration = 900\<rparr> \<and>
   terminated (run example_fromSecretKey (generate Ab_generator 0 0)
              [Message 0 (Progress (Some 10000)) 400,
               Message 1 (Success lucky_address 10002 10003) 900]) = [0, 1, 2, 3] \<and>
   run example_fromSecretKey (generate Ab_generator 0 0)
     [Message 0 (Progress (Some 10000)) 400, Message 1 (Success lucky_address 10002 10003) 900,
      Message 2 (Success lucky_address 10002 10003) 901, Message 0 (Progress (Some 10000)) 950,
      ErrorEvent 3] =
   run example_fromSecretKey (generate Ab_generator 0 0)
     [Message 0 (Progress (Some 10000)) 400, Message 1 (Success lucky_address 10002 10003) 900] \<and>
   run example_fromSecretKey (generate Ab_generator 0 0)
     [ErrorEvent 2, Message 1 (Success lucky_address 10002 10003) 900,
      Message 0 (Progress (Some 10000)) 950] =
   run example_fromSecretKey (generate Ab_generator 0 0)
     [ErrorEvent 2, Message 1 (Success lucky_address 10002 10003) 900]"
proof -
  have pre: "\<forall>e\<in>set [Message 0 (Progress (Some 10000)) 400 :: nat event]. is_progress e"
    by simp
  have key: "example_fromSecretKey 10002 = Inr \<lparr>publicKey = lucky_address, secretKey = 10002\<rparr>"
    by (simp add: example_fromSecretKey_def lucky_gen_def)
  have msgs: "\<forall>e\<in>set [Message 0 (Progress (Some 10000)) 950 :: nat event]. is_message e"
    by simp
  note t = C8_first_success_only
    [where pre = "[Message 0 (Progress (Some 10000)) 400]"
      and fromSecretKey = example_fromSecretKey and k = 10002
      and kp = "\<lparr>publicKey = lucky_address, secretKey = 10002\<rparr>"
      and g = Ab_generator and ?t0.0 = 0 and ?t1.0 = 0 and i = 1 and a = lucky_address
      and n = 10003 and now = 900 and msgs = "[Message 0 (Progress (Some 10000)) 950]"
      and s = "generate Ab_generator 0 0" and evs = "[ErrorEvent 2]"]
  from t pre key have "run example_fromSecretKey (generate Ab_generator 0 0)
     ([Message 0 (Progress (Some 10000)) 400] @ Message 1 (Success lucky_address 10002 10003) 900 #
      [Message 2 (Success lucky_address 10002 10003) 901, Message 0 (Progress (Some 10000)) 950,
       ErrorEvent 3]) =
   run example_fromSecretKey (generate Ab_generator 0 0)
     ([Message 0 (Progress (Some 10000)) 400] @
      [Message 1 (Success lucky_address 10002 10003) 900])"
    by blast
  moreover from t msgs have "run example_fromSecretKey (generate Ab_generator 0 0)
     ([ErrorEvent 2] @ Message 1 (Success lucky_address 10002 10003) 900 #
      [Message 0 (Progress (Some 10000)) 950]) =
   run example_fromSecretKey (generate Ab_generator 0 0)
     ([ErrorEvent 2] @ [Message 1 (Success lucky_address 10002 10003) 900])"
    by blast
  moreover from t pre key have
    "outcome (run example_fromSecretKey (generate Ab_generator 0 0)
       ([Message 0 (Progress (Some 10000)) 400] @
        [Message 1 (Success lucky_address 10002 10003) 900])) =
     Resolved \<lparr>r_publicKey = lucky_address,
               r_privateKey = \<lparr>publicKey = lucky_address, secretKey = 10002\<rparr>,
               r_attempts = sum_list (map delta [Message 0 (Progress (Some 10000)) 400 :: nat event]),
               r_duration = 900 - 0\<rparr> \<and>
     terminated (run example_fromSecretKey (generate Ab_generator 0 0)
       ([Message 0 (Progress (Some 10000)) 400] @
        [Message 1 (Success lucky_address 10002 10003) 900])) =
     terminated Ab_generator @ workers Ab_generator @
       [0 ..< nat (the (threads (g_config Ab_generator)))]"
    by blast
  ultimately show ?thesis
    by (simp add: num_or_def Ab_generator_def Ab_config_def upt_rec)
qed

subsection \<open>C9: the ceiling is tested at batch boundaries\<close>

text \<open>
  C9, amended. A worker compares its attempt counter with \<open>maxAttempts\<close> only after a
  full batch of 10000 candidates. Let the ceiling be \<open>m > 0\<close> and let \<open>10000 * k\<close> be the
  least multiple of 10000 that is at least \<open>m\<close>. The worker stops at the ceiling, having
  posted \<open>k\<close> progress messages and throwing the maximum-attempts error with its
  counter at \<open>10000 * k\<close>, exactly when none of its first \<open>10000 * k\<close> candidates
  matches: it generates and tests every one of them. When \<open>m\<close> is not a multiple of
  10000 this is more than \<open>m\<close> candidates, by at most 9999.
\<close>

theorem C9_ceiling_checked_at_batch_boundary:
  fixes m :: int
  assumes "maxAttempts cfg = Some m" and "0 < m"
    and "k = nat ((m + 9999) div 10000)"
  shows "((\<forall>j<10000 * k. \<not> matchesPattern cfg (publicKey (gen j))) \<longleftrightarrow>
           search gen (new_VanityWorker cfg wid) [] =
             Some ((new_VanityWorker cfg wid)\<lparr>attempts := 10000 * k\<rparr>,
                   replicate k (Progress (Some 10000)),
                   Thrown (MaximumAttemptsReached wid))) \<and>
         m \<le> int (10000 * k) \<and>
         (\<forall>k'. m \<le> int (10000 * k') \<longrightarrow> k \<le> k') \<and>
         (\<not> 10000 dvd m \<longrightarrow> m < int (10000 * k) \<and> int (10000 * k) - m \<le> 9999)"
proof -
  have k: "k = nat ((m + int 10000 - 1) div int 10000)" using assms(3) by simp
  note b = ceil_div_bounds [OF assms(2) _ k]
  have lo: "m \<le> int (10000 * k)" and hi: "int (10000 * k) < m + 10000"
    using b(1,2) by simp_all
  have least: "k \<le> k'" if "m \<le> int (10000 * k')" for k'
  proof (rule ccontr)
    assume "\<not> k \<le> k'"
    then have "Suc k' \<le> k" by simp
    then have "10000 * Suc k' \<le> 10000 * k" by (rule mult_le_mono2)
    with hi that show False by simp
  qed
  have strict: "m < int (10000 * k)" if "\<not> 10000 dvd m"
  proof -
    have "m \<noteq> int (10000 * k)" using that by auto
    with lo show ?thesis by simp
  qed
  have tested: "\<forall>j<10000 * k. \<not> matchesPattern cfg (publicKey (gen j))"
    if thrown: "search gen (new_VanityWorker cfg wid) [] =
             Some ((new_VanityWorker cfg wid)\<lparr>attempts := 10000 * k\<rparr>,
                   replicate k (Progress (Some 10000)),
                   Thrown (MaximumAttemptsReached wid))"
  proof (intro allI impI notI)
    fix j assume j: "j < 10000 * k" and mj: "matchesPattern cfg (publicKey (gen j))"
    have below: "c = 0 \<or> i < 10000 \<or> int (10000 * (i div 10000)) < c"
      if c: "maxAttempts cfg = Some c" and i: "i \<le> j" for c i
    proof -
      from i j have "i div 10000 < k" by (simp add: div_less_iff_less_mult mult.commute)
      then have "Suc (i div 10000) \<le> k" by simp
      then have "10000 * Suc (i div 10000) \<le> 10000 * k" by (rule mult_le_mono2)
      with hi have "int (10000 * (i div 10000)) < m" by simp
      with c assms(1) show ?thesis by simp
    qed
    from search_returns_on_match [where cfg = cfg and gen = gen and j = j and wid = wid,
        OF mj below] thrown
    show False by auto
  qed
  have "(\<forall>j<10000 * k. \<not> matchesPattern cfg (publicKey (gen j))) \<longleftrightarrow>
           search gen (new_VanityWorker cfg wid) [] =
             Some ((new_VanityWorker cfg wid)\<lparr>attempts := 10000 * k\<rparr>,
                   replicate k (Progress (Some 10000)),
                   Thrown (MaximumAttemptsReached wid))"
    using search_exhaust_fresh [OF assms, of gen wid] tested by blast
  then show ?thesis
    using lo least strict hi by simp
qed

theorem C9_ceiling_witness:
  "search plain_gen (new_VanityWorker zz_config 0) [] =
     Some ((new_VanityWorker zz_config 0)\<lparr>attempts := 10000\<rparr>,
           [Progress (Some 10000)], Thrown (MaximumAttemptsReached 0)) \<and>
   (1000 :: int) < 10000 \<and> (10000 :: int) - 1000 \<le> 9999"
  using C9_ceiling_checked_at_batch_boundary [of zz_config 1000 1 plain_gen 0]
    plain_gen_no_match [of zz_config "''z''"]
  by (simp add: zz_config_def)

text \<open>
  C9 as stated fails for a ceiling that is set and negative. With \<open>maxAttempts = -5\<close>,
  which is not a multiple of 10000, the least multiple of 10000 that is at least \<open>-5\<close>
  is \<open>0\<close>; the worker generates the 10000 candidates of its first batch before it
  stops, which is 10005 above the ceiling.
\<close>

theorem C9_negative_ceiling_counterexample:
  "search plain_gen (new_VanityWorker (zz_config\<lparr>maxAttempts := Some (- 5)\<rparr>) 0) [] =
     Some ((new_VanityWorker (zz_config\<lparr>maxAttempts := Some (- 5)\<rparr>) 0)\<lparr>attempts := 10000\<rparr>,
           [Progress (Some 10000)], Thrown (MaximumAttemptsReached 0)) \<and>
   \<not> (10000 :: int) dvd - 5 \<and> (- 5 :: int) \<le> 10000 * 0 \<and> (10000 * 0 :: int) < 10000 \<and>
   \<not> ((10000 :: int) - (- 5) \<le> 9999)"
  using search_negative_ceiling [of "zz_config\<lparr>maxAttempts := Some (- 5)\<rparr>" "- 5" plain_gen 0]
    plain_gen_no_match [of "zz_config\<lparr>maxAttempts := Some (- 5)\<rparr>" "''z''"]
  by (simp add: zz_config_def)

subsection \<open>C10: the attempts count of the result\<close>

text \<open>
  C10, amended. Let candidate \<open>j\<close> be the first of a worker that matches, the ceiling
  not stopping the worker before, and let \<open>Keypair.fromSecretKey\<close> accept its key. The
  worker posts one progress message of 10000 attempts for each full batch and then the
  success message, whose \<open>attempts\<close> field is \<open>j + 1\<close>, the number of candidates the worker
  has generated; the part of it that no progress message has reported is
  \<open>j mod 10000 + 1\<close>, between 1 and 10000. The page does not read the field: after any
  progress messages, of any workers, it resolves \<open>generate()\<close> with the sum of their
  deltas. When the page has handled the winner's own messages and no others, the count
  it resolves with is less than the number of candidates the winner generated by that
  part, between 1 and 10000.
\<close>

theorem C10_resolved_attempts_undercount:
  assumes "matchesPattern cfg (publicKey (gen j))"
    and "\<forall>j'<j. \<not> matchesPattern cfg (publicKey (gen j'))"
    and "\<forall>c. maxAttempts cfg = Some c \<longrightarrow>
           c = 0 \<or> j < 10000 \<or> int (10000 * (j div 10000)) < c"
    and "fromSecretKey (secretKey (gen j)) = Inr kp"
  shows "search gen (new_VanityWorker cfg wid) [] =
           Some ((new_VanityWorker cfg wid)\<lparr>attempts := 10000 * (j div 10000)\<rparr>,
                 replicate (j div 10000) (Progress (Some 10000)) @
                   [Success (publicKey (gen j)) (secretKey (gen j)) (int (j + 1))],
                 Returned) \<and>
         int (j + 1) = int (10000 * (j div 10000)) + int (j mod 10000 + 1) \<and>
         1 \<le> j mod 10000 + 1 \<and> j mod 10000 + 1 \<le> 10000 \<and>
         (\<forall>pre i now. (\<forall>e\<in>set pre. is_progress e) \<longrightarrow>
            outcome (run fromSecretKey (generate g t0 t1)
                       (pre @ [Message i (Success (publicKey (gen j)) (secretKey (gen j))
                                            (int (j + 1))) now])) =
              Resolved \<lparr>r_publicKey = publicKey (gen j), r_privateKey = kp,
                        r_attempts = sum_list (map delta pre), r_duration = now - t0\<rparr>) \<and>
         (\<forall>ts. length ts = j div 10000 + 1 \<longrightarrow>
            outcome (run fromSecretKey (generate g t0 t1)
                       (map2 (Message wid)
                          (replicate (j div 10000) (Progress (Some 10000)) @
                             [Success (publicKey (gen j)) (secretKey (gen j)) (int (j + 1))])
                          ts)) =
              Resolved \<lparr>r_publicKey = publicKey (gen j), r_privateKey = kp,
                        r_attempts = int (j + 1) - int (j mod 10000 + 1),
                        r_duration = last ts - t0\<rparr>)"
proof -
  let ?c = "j div 10000"
  let ?S = "Success (publicKey (gen j)) (secretKey (gen j)) (int (j + 1))"
  let ?P = "Progress (Some 10000) :: 'a WorkerMessage"
  have found: "search gen (new_VanityWorker cfg wid) [] =
           Some ((new_VanityWorker cfg wid)\<lparr>attempts := 10000 * ?c\<rparr>,
                 replicate ?c (Progress (Some 10000)) @ [?S], Returned)"
    using assms(1,2,3) by (intro search_finds_fresh) blast+
  have split: "int (j + 1) = int (10000 * ?c) + int (j mod 10000 + 1)"
  proof -
    have "j = 10000 * ?c + j mod 10000" by simp
    then show ?thesis by linarith
  qed
  have general: "outcome (run fromSecretKey (generate g t0 t1) (pre @ [Message i ?S now])) =
              Resolved \<lparr>r_publicKey = publicKey (gen j), r_privateKey = kp,
                        r_attempts = sum_list (map delta pre), r_duration = now - t0\<rparr>"
    if "\<forall>e\<in>set pre. is_progress e" for pre i now
    using first_success(1) [where f = fromSecretKey and k = "secretKey (gen j)" and kp = kp,
        OF that assms(4)] .
  have single: "outcome (run fromSecretKey (generate g t0 t1)
                  (map2 (Message wid) (replicate ?c (Progress (Some 10000)) @ [?S]) ts)) =
          Resolved \<lparr>r_publicKey = publicKey (gen j), r_privateKey = kp,
                    r_attempts = int (j + 1) - int (j mod 10000 + 1),
                    r_duration = last ts - t0\<rparr>"
    if len: "length ts = ?c + 1" for ts
  proof -
    from len have "length ts = Suc ?c" by simp
    then obtain ts1 t where ts: "ts = ts1 @ [t]" "length ts1 = ?c"
      by (metis length_Suc_conv_rev)
    have evs: "map2 (Message wid) (replicate ?c (Progress (Some 10000)) @ [?S]) ts =
        map2 (Message wid) (replicate ?c (Progress (Some 10000))) ts1 @ [Message wid ?S t]"
      using ts by simp
    note own = own_progress_events [OF ts(2), of wid]
    show ?thesis
      unfolding evs
      using general [OF own [THEN conjunct1], of wid t] own [THEN conjunct2] ts split
      by simp
  qed
  show ?thesis
    using found split general single by simp
qed

theorem C10_undercount_witness:
  "search lucky_gen (new_VanityWorker Ab_config 0) [] =
     Some ((new_VanityWorker Ab_config 0)\<lparr>attempts := 10000\<rparr>,
           [Progress (Some 10000), Success lucky_address 10002 10003], Returned) \<and>
   outcome (run example_fromSecretKey (generate Ab_generator 0 0)
              [Message 0 (Progress (Some 10000)) 400,
               Message 0 (Success lucky_address 10002 10003) 900]) =
     Resolved \<lparr>r_publicKey = lucky_address,
               r_privateKey = \<lparr>publicKey = lucky_address, secretKey = 10002\<rparr>,
               r_attempts = 10003 - 3, r_duration = 900\<rparr>"
proof -
  have cfg: "prefix Ab_config = Some ''Ab''" "caseInsensitive Ab_config"
    "maxAttempts Ab_config = None"
    by (simp_all add: Ab_config_def)
  have m: "matchesPattern Ab_config (publicKey (lucky_gen 10002))"
    using lucky_match_Ab by (simp add: lucky_gen_def)
  have first: "\<forall>j'<10002. \<not> matchesPattern Ab_config (publicKey (lucky_gen j'))"
    using lucky_gen_first_match [OF cfg(1,2)] by blast
  have ceil: "\<forall>c. maxAttempts Ab_config = Some c \<longrightarrow>
      c = 0 \<or> (10002 :: nat) < 10000 \<or> int (10000 * (10002 div 10000)) < c"
    using cfg(3) by simp
  have key: "example_fromSecretKey (secretKey (lucky_gen 10002)) = Inr (lucky_gen 10002)"
    by (simp add: example_fromSecretKey_def lucky_gen_def)
  have d: "(10002 :: nat) div 10000 = 1" "(10002 :: nat) mod 10000 = 2" by simp_all
  note t = C10_resolved_attempts_undercount
    [where cfg = Ab_config and gen = lucky_gen and j = 10002
      and fromSecretKey = example_fromSecretKey and kp = "lucky_gen 10002" and wid = 0
      and g = Ab_generator and ?t0.0 = 0 and ?t1.0 = 0, OF m first ceil key]
  from t have "search lucky_gen (new_VanityWorker Ab_config 0) [] =
           Some ((new_VanityWorker Ab_config 0)\<lparr>attempts := 10000 * (10002 div 10000)\<rparr>,
                 replicate (10002 div 10000) (Progress (Some 10000)) @
                   [Success (publicKey (lucky_gen 10002)) (secretKey (lucky_gen 10002))
                      (int (10002 + 1))],
                 Returned)"
    by blast
  moreover from t have "length [400, 900 :: int] = 10002 div 10000 + 1 \<longrightarrow>
     outcome (run example_fromSecretKey (generate Ab_generator 0 0)
                       (map2 (Message 0)
                          (replicate (10002 div 10000) (Progress (Some 10000)) @
                             [Success (publicKey (lucky_gen 10002)) (secretKey (lucky_gen 10002))
                                (int (10002 + 1))])
                          [400, 900])) =
              Resolved \<lparr>r_publicKey = publicKey (lucky_gen 10002), r_privateKey = lucky_gen 10002,
                        r_attempts = int (10002 + 1) - int (10002 mod 10000 + 1),
                        r_duration = last [400, 900] - 0\<rparr>"
    by blast
  ultimately show ?thesis
    unfolding d by (simp add: lucky_gen_def)
qed

text \<open>
  C10 as stated fails when several workers search. Worker 0 finds its match with its
  10003rd candidate and worker 1 exhausts its 20000 attempts without a match; the page
  handles worker 0's progress message and its success message before the two progress
  messages of worker 1, which it then drops. It resolves with 10000, while the workers
  have generated \<open>10003 + 20000\<close> candidates: an undercount of 20003.
\<close>

theorem C10_two_workers_counterexample:
  "search lucky_gen
     (new_VanityWorker (Ab_config\<lparr>maxAttempts := Some 15000, threads := Some 2\<rparr>) 0) [] =
     Some ((new_VanityWorker (Ab_config\<lparr>maxAttempts := Some 15000, threads := Some 2\<rparr>) 0)
             \<lparr>attempts := 10000\<rparr>,
           [Progress (Some 10000), Success lucky_address 10002 10003], Returned) \<and>
   search plain_gen
     (new_VanityWorker (Ab_config\<lparr>maxAttempts := Some 15000, threads := Some 2\<rparr>) 1) [] =
     Some ((new_VanityWorker (Ab_config\<lparr>maxAttempts := Some 15000, threads := Some 2\<rparr>) 1)
             \<lparr>attempts := 20000\<rparr>,
           [Progress (Some 10000), Progress (Some 10000)],
           Thrown (MaximumAttemptsReached 1)) \<and>
   outcome (run example_fromSecretKey
              (generate (Ab_generator\<lparr>g_config :=
                           Ab_config\<lparr>maxAttempts := Some 15000, threads := Some 2\<rparr>\<rparr>) 0 0)
              [Message 0 (Progress (Some 10000)) 400,
               Message 0 (Success lucky_address 10002 10003) 900,
               Message 1 (Progress (Some 10000)) 950,
               Message 1 (Progress (Some 10000)) 990]) =
     Resolved \<lparr>r_publicKey = lucky_address,
               r_privateKey = \<lparr>publicKey = lucky_address, secretKey = 10002\<rparr>,
               r_attempts = 10000, r_duration = 900\<rparr> \<and>
   \<not> ((10003 + 20000 :: int) - 10000 \<le> 10000)"
proof -
  let ?cfg = "Ab_config\<lparr>maxAttempts := Some 15000, threads := Some 2\<rparr>"
  have cfg: "prefix ?cfg = Some ''Ab''" "caseInsensitive ?cfg" "maxAttempts ?cfg = Some 15000"
    by (simp_all add: Ab_config_def)
  have w0: "search lucky_gen (new_VanityWorker ?cfg 0) [] =
     Some ((new_VanityWorker ?cfg 0)\<lparr>attempts := 10000\<rparr>,
           [Progress (Some 10000), Success lucky_address 10002 10003], Returned)"
    using cfg lucky_match_two_workers by (intro lucky_search) simp_all
  have w1: "search plain_gen (new_VanityWorker ?cfg 1) [] =
     Some ((new_VanityWorker ?cfg 1)\<lparr>attempts := 20000\<rparr>,
           [Progress (Some 10000), Progress (Some 10000)], Thrown (MaximumAttemptsReached 1))"
    using search_exhaust_fresh [of ?cfg 15000 2 plain_gen 1] plain_gen_not_Ab [OF cfg(1,2)] cfg(3)
    by (simp add: numeral_2_eq_2)
  have page: "outcome (run example_fromSecretKey
              (generate (Ab_generator\<lparr>g_config := ?cfg\<rparr>) 0 0)
              [Message 0 (Progress (Some 10000)) 400,
               Message 0 (Success lucky_address 10002 10003) 900,
               Message 1 (Progress (Some 10000)) 950,
               Message 1 (Progress (Some 10000)) 990]) =
     Resolved \<lparr>r_publicKey = lucky_address,
               r_privateKey = \<lparr>publicKey = lucky_address, secretKey = 10002\<rparr>,
               r_attempts = 10000, r_duration = 900\<rparr>"
    by (simp add: generate_def onmessage_def onProgress_def stopWorkers_def resolve_def
        num_or_def Let_def Ab_generator_def example_fromSecretKey_def lucky_gen_def)
  from w0 w1 page show ?thesis by simp
qed

end
